theory Spec2Isabelle
  imports Complex_Main "HOL-Library.Word"
begin

section \<open>Common conventions\<close>

text \<open>
  Python floats (and the numpy float32/float64 arrays) are idealised as real numbers, with
  the two infinities added where the source uses \<^verbatim>\<open>float('inf')\<close>.  A naive
  \<^verbatim>\<open>datetime\<close> is a point on a timeline, counted in microseconds; a
  \<^verbatim>\<open>timedelta\<close> is a number of microseconds.  Every call of
  \<^verbatim>\<open>datetime.now()\<close> is an explicit argument of the function that makes it, and
  \<^verbatim>\<open>isoformat()\<close> renderings of a datetime are kept as the datetime itself.
\<close>

type_synonym datetime = int

definition timedelta_minutes :: "int \<Rightarrow> int" where
  "timedelta_minutes m = m * 60000000"

definition timedelta_hours :: "int \<Rightarrow> int" where
  "timedelta_hours h = h * 3600000000"

text \<open>\<^verbatim>\<open>str(n)\<close> of a natural number, as the f-strings of the alerts print it.\<close>

function str_nat :: "nat \<Rightarrow> string" where
  "str_nat n = (if n < 10 then [char_of (48 + n)]
                else str_nat (n div 10) @ [char_of (48 + n mod 10)])"
  by pat_completeness auto
termination
  by (relation "measure (\<lambda>n. n)") auto

declare str_nat.simps [simp del]

section \<open>Threat detection (src/api/threat\_detection.py)\<close>

datatype ThreatLevel = LOW | MEDIUM | HIGH | CRITICAL

fun ThreatLevel_name :: "ThreatLevel \<Rightarrow> string" where
  "ThreatLevel_name LOW = ''LOW''"
| "ThreatLevel_name MEDIUM = ''MEDIUM''"
| "ThreatLevel_name HIGH = ''HIGH''"
| "ThreatLevel_name CRITICAL = ''CRITICAL''"

record ThreatDetector =
  failed_attempt_threshold :: int
  failed_attempt_window_minutes :: int
  inactivity_threshold_hours :: int
  failed_attempts :: "(datetime \<times> string) list"
  access_log :: "(datetime \<times> string \<times> string) list"

text \<open>\<^verbatim>\<open>ThreatDetector.__init__\<close>: both histories start empty.\<close>

definition ThreatDetector_init :: "int \<Rightarrow> int \<Rightarrow> int \<Rightarrow> ThreatDetector" where
  "ThreatDetector_init threshold window_minutes inactivity_hours =
     \<lparr> failed_attempt_threshold = threshold,
       failed_attempt_window_minutes = window_minutes,
       inactivity_threshold_hours = inactivity_hours,
       failed_attempts = [],
       access_log = [] \<rparr>"

text \<open>The alert dictionary of \<^verbatim>\<open>check_failed_access_attempts\<close>.\<close>

record failed_access_alert =
  threat_type :: string
  severity :: string
  alert_person_id :: string
  failed_count :: nat
  alert_timestamp :: datetime
  message :: string

text \<open>
  \<^verbatim>\<open>check_failed_access_attempts\<close>: \<open>now\<close> is the value of its one
  \<^verbatim>\<open>datetime.now()\<close> call.  The method only reads the detector.
\<close>

definition recent_failures :: "datetime \<Rightarrow> ThreatDetector \<Rightarrow> string \<Rightarrow> (datetime \<times> string) list" where
  "recent_failures now d person_id =
     (let window_start = now - timedelta_minutes (failed_attempt_window_minutes d)
      in filter (\<lambda>attempt. fst attempt > window_start \<and> snd attempt = person_id)
           (failed_attempts d))"

definition check_failed_access_attempts ::
    "datetime \<Rightarrow> ThreatDetector \<Rightarrow> string \<Rightarrow> failed_access_alert option" where
  "check_failed_access_attempts now d person_id =
     (let recent = recent_failures now d person_id
      in if int (length recent) \<ge> failed_attempt_threshold d
         then Some \<lparr> threat_type = ''REPEATED_FAILED_ACCESS'',
                     severity = ThreatLevel_name HIGH,
                     alert_person_id = person_id,
                     failed_count = length recent,
                     alert_timestamp = now,
                     message = ''Multiple failed access attempts ('' @ str_nat (length recent)
                               @ '') detected'' \<rparr>
         else None)"

text \<open>
  \<^verbatim>\<open>log_access_attempt\<close> reads the clock twice: \<open>now1\<close> stamps the entry of the
  access log, \<open>now2\<close> the entry of the failed attempts.
\<close>

definition log_access_attempt ::
    "datetime \<Rightarrow> datetime \<Rightarrow> ThreatDetector \<Rightarrow> string \<Rightarrow> bool \<Rightarrow> ThreatDetector" where
  "log_access_attempt now1 now2 d person_id success =
     (let status = (if success then ''success'' else ''failed'');
          d1 = d\<lparr> access_log := access_log d @ [(now1, person_id, status)] \<rparr>
      in if \<not> success
         then d1\<lparr> failed_attempts := failed_attempts d1 @ [(now2, person_id)] \<rparr>
         else d1)"

text \<open>A run of logged attempts: (clock, clock, person, success) per call, in order.\<close>

fun log_access_attempts ::
    "ThreatDetector \<Rightarrow> (datetime \<times> datetime \<times> string \<times> bool) list \<Rightarrow> ThreatDetector" where
  "log_access_attempts d [] = d"
| "log_access_attempts d ((now1, now2, person_id, success) # rest) =
     log_access_attempts (log_access_attempt now1 now2 d person_id success) rest"

text \<open>
  The number of failed attempts of a person inside the trailing window, counted entry by
  entry: an entry counts when it belongs to the person and is later than
  \<open>now\<close> minus the window.
\<close>

fun failed_in_window :: "datetime \<Rightarrow> string \<Rightarrow> (datetime \<times> string) list \<Rightarrow> nat" where
  "failed_in_window window_start p [] = 0"
| "failed_in_window window_start p ((t, q) # rest) =
     (if q = p \<and> window_start < t then 1 else 0) + failed_in_window window_start p rest"

definition failed_count_in_window :: "datetime \<Rightarrow> ThreatDetector \<Rightarrow> string \<Rightarrow> nat" where
  "failed_count_in_window now d p =
     failed_in_window (now - timedelta_minutes (failed_attempt_window_minutes d)) p
       (failed_attempts d)"

text \<open>The entries of the failed-attempt history that lie outside the trailing window.\<close>

definition outside_window :: "datetime \<Rightarrow> ThreatDetector \<Rightarrow> (datetime \<times> string) list" where
  "outside_window now d =
     filter (\<lambda>attempt. \<not> fst attempt > now - timedelta_minutes (failed_attempt_window_minutes d))
       (failed_attempts d)"

text \<open>
  The scenario of the specification: threshold 3, window 10 minutes, failures of
  \<^verbatim>\<open>unknown_001\<close> one minute apart, logged into a fresh detector.
\<close>

definition scenario_three_failures :: ThreatDetector where
  "scenario_three_failures =
     log_access_attempts (ThreatDetector_init 3 10 24)
       [(0, 0, ''unknown_001'', False),
        (60000000, 60000000, ''unknown_001'', False),
        (120000000, 120000000, ''unknown_001'', False)]"

definition scenario_two_failures :: ThreatDetector where
  "scenario_two_failures =
     log_access_attempts (ThreatDetector_init 3 10 24)
       [(0, 0, ''unknown_001'', False),
        (60000000, 60000000, ''unknown_001'', False)]"

text \<open>A failure at time 0 and the next one a day later.\<close>

definition scenario_stale_failure :: ThreatDetector where
  "scenario_stale_failure =
     log_access_attempts (ThreatDetector_init 3 10 24)
       [(0, 0, ''unknown_001'', False),
        (86400000000, 86400000000, ''unknown_001'', False)]"

section \<open>Anomaly detection (src/doortest/models/anomaly\_detection.py)\<close>

datatype py_error = KeyError | ValueError | TypeError | IndexError | AttributeError | OtherError

text \<open>
  An access event is a dictionary.  Its \<^verbatim>\<open>'timestamp'\<close> entry is kept as the outcome of
  \<^verbatim>\<open>datetime.fromisoformat\<close> on it: the key can be missing (KeyError), the string can be
  rejected (ValueError), or it parses to a naive datetime, counted in microseconds from
  0001-01-01T00:00:00, a Monday.  \<^verbatim>\<open>'type'\<close> can be missing; \<^verbatim>\<open>'confidence'\<close> is read
  with a default.  The anomaly detector never reads \<^verbatim>\<open>'person_id'\<close>.
\<close>

datatype timestamp_entry = Missing | Malformed | Parsed datetime

record access_event =
  ev_timestamp :: timestamp_entry
  ev_person_id :: string
  ev_type :: "string option"
  ev_confidence :: "real option"

fun fromisoformat_timestamp :: "access_event \<Rightarrow> py_error + datetime" where
  "fromisoformat_timestamp access =
     (case ev_timestamp access of
        Missing \<Rightarrow> Inl KeyError
      | Malformed \<Rightarrow> Inl ValueError
      | Parsed t \<Rightarrow> Inr t)"

definition hour_of :: "datetime \<Rightarrow> int" where
  "hour_of t = (t div 3600000000) mod 24"

definition weekday_of :: "datetime \<Rightarrow> int" where
  "weekday_of t = (t div 86400000000) mod 7"

definition total_seconds :: "int \<Rightarrow> real" where
  "total_seconds delta = real_of_int delta / 1000000"

text \<open>The first raised exception ends a loop; otherwise the results are collected in order.\<close>

fun collect :: "('e + 'a) list \<Rightarrow> 'e + 'a list" where
  "collect [] = Inr []"
| "collect (Inl e # rest) = Inl e"
| "collect (Inr x # rest) = (case collect rest of Inl e \<Rightarrow> Inl e | Inr xs \<Rightarrow> Inr (x # xs))"

text \<open>The body of the loop of \<^verbatim>\<open>extract_features\<close> at index \<open>i\<close>.\<close>

definition feature_vector :: "access_event list \<Rightarrow> nat \<Rightarrow> py_error + real list" where
  "feature_vector access_sequence i =
     (let access = access_sequence ! i in
      case fromisoformat_timestamp access of
        Inl e \<Rightarrow> Inl e
      | Inr timestamp \<Rightarrow>
          (case ev_type access of
             None \<Rightarrow> Inl KeyError
           | Some ty \<Rightarrow>
               (let hour = hour_of timestamp;
                    day_of_week = weekday_of timestamp;
                    access_type = (if ty = ''entry'' then 1 else 0);
                    confidence = (case ev_confidence access of None \<Rightarrow> 0 | Some c \<Rightarrow> c)
                in case (if i > 0
                         then (case fromisoformat_timestamp (access_sequence ! (i - 1)) of
                                 Inl e \<Rightarrow> Inl e
                               | Inr prev_timestamp \<Rightarrow>
                                   Inr (total_seconds (timestamp - prev_timestamp) / 3600))
                         else Inr 0) of
                     Inl e \<Rightarrow> Inl e
                   | Inr time_diff \<Rightarrow>
                       Inr [real_of_int hour, real_of_int day_of_week, access_type,
                            confidence, time_diff])))"

definition extract_features :: "access_event list \<Rightarrow> py_error + real list list" where
  "extract_features access_sequence =
     collect (map (feature_vector access_sequence) [0..<length access_sequence])"

text \<open>
  The fitted scikit-learn model is outside the repository: it is a pair of functions from a
  feature matrix to the labels (\<open>-1\<close> anomaly, \<open>1\<close> normal) and to the raw scores, each of
  which may raise.
\<close>

record sk_model =
  sk_predict :: "real list list \<Rightarrow> py_error + int list"
  sk_score_samples :: "real list list \<Rightarrow> py_error + real list"

record AnomalyDetector =
  model_type :: string
  contamination :: real
  model :: "sk_model option"
  is_trained :: bool

definition AnomalyDetector_init :: "string \<Rightarrow> real \<Rightarrow> AnomalyDetector" where
  "AnomalyDetector_init mt c =
     \<lparr> model_type = mt, contamination = c, model = None, is_trained = False \<rparr>"

text \<open>The dictionary returned by \<^verbatim>\<open>predict_anomaly\<close>; an absent key is \<open>None\<close>.\<close>

record verdict =
  is_anomaly :: bool
  anomaly_score :: real
  verdict_confidence :: "real option"
  verdict_timestamp :: "datetime option"
  reason :: "string option"
  error :: "py_error option"

definition neutral_verdict :: verdict where
  "neutral_verdict =
     \<lparr> is_anomaly = False, anomaly_score = 0, verdict_confidence = Some 0,
       verdict_timestamp = None, reason = Some ''Model not trained'', error = None \<rparr>"

definition error_verdict :: "py_error \<Rightarrow> verdict" where
  "error_verdict e =
     \<lparr> is_anomaly = False, anomaly_score = 0, verdict_confidence = None,
       verdict_timestamp = None, reason = None, error = Some e \<rparr>"

text \<open>\<^verbatim>\<open>xs[0]\<close> on the arrays the model returns.\<close>

fun first_item :: "'a list \<Rightarrow> py_error + 'a" where
  "first_item [] = Inl IndexError"
| "first_item (x # xs) = Inr x"

text \<open>The feature matrix that \<^verbatim>\<open>predict_anomaly\<close> hands to the model (line 158).\<close>

definition predict_features :: "access_event \<Rightarrow> py_error + real list list" where
  "predict_features access_event = extract_features [access_event]"

definition predict_anomaly :: "datetime \<Rightarrow> AnomalyDetector \<Rightarrow> access_event \<Rightarrow> verdict" where
  "predict_anomaly now d access_event =
     (if \<not> is_trained d then neutral_verdict
      else
        (case predict_features access_event of
           Inl e \<Rightarrow> error_verdict e
         | Inr features \<Rightarrow>
             (case model d of
                None \<Rightarrow> error_verdict AttributeError
              | Some m \<Rightarrow>
                  (case sk_predict m features of
                     Inl e \<Rightarrow> error_verdict e
                   | Inr predictions \<Rightarrow>
                       (case first_item predictions of
                          Inl e \<Rightarrow> error_verdict e
                        | Inr prediction \<Rightarrow>
                            (case sk_score_samples m features of
                               Inl e \<Rightarrow> error_verdict e
                             | Inr scores \<Rightarrow>
                                 (case first_item scores of
                                    Inl e \<Rightarrow> error_verdict e
                                  | Inr score \<Rightarrow>
                                      (let normalized_score = 1 / (1 + exp score)
                                       in \<lparr> is_anomaly = (prediction = - 1),
                                            anomaly_score = normalized_score,
                                            verdict_confidence = Some \<bar>score\<bar>,
                                            verdict_timestamp = Some now,
                                            reason = None,
                                            error = None \<rparr>))))))))"

text \<open>
  Training and loading.  What \<^verbatim>\<open>IsolationForest(...).fit\<close> and \<^verbatim>\<open>pickle.load\<close> do is
  outside the repository, so their outcome is an argument: the import (or the constructor)
  can fail before anything is stored, the fit can raise after the unfitted instance has been
  stored, or it succeeds; the file can fail to load, or it yields the pickled object, which
  may be \<^verbatim>\<open>None\<close>.
\<close>

datatype fit_outcome = ImportFailed | FitRaised sk_model | Fitted sk_model

fun train_isolation_forest :: "AnomalyDetector \<Rightarrow> fit_outcome \<Rightarrow> AnomalyDetector \<times> bool" where
  "train_isolation_forest d ImportFailed = (d, False)"
| "train_isolation_forest d (FitRaised m) = (d\<lparr> model := Some m \<rparr>, False)"
| "train_isolation_forest d (Fitted m) = (d\<lparr> model := Some m, is_trained := True \<rparr>, True)"

definition train_lstm_autoencoder :: "AnomalyDetector \<Rightarrow> AnomalyDetector \<times> bool" where
  "train_lstm_autoencoder d = (d, False)"

datatype load_outcome = LoadRaised | Loaded "sk_model option"

fun load_model :: "AnomalyDetector \<Rightarrow> load_outcome \<Rightarrow> AnomalyDetector \<times> bool" where
  "load_model d LoadRaised = (d, False)"
| "load_model d (Loaded obj) = (d\<lparr> model := obj, is_trained := True \<rparr>, True)"

text \<open>The calls that can be made on a detector, and a run of them from a given state.\<close>

datatype detector_call =
    TrainIsolationForest fit_outcome
  | TrainLstmAutoencoder
  | LoadModel load_outcome
  | SaveModel
  | PredictAnomaly datetime access_event

fun call_detector :: "AnomalyDetector \<Rightarrow> detector_call \<Rightarrow> AnomalyDetector" where
  "call_detector d (TrainIsolationForest outcome) = fst (train_isolation_forest d outcome)"
| "call_detector d TrainLstmAutoencoder = fst (train_lstm_autoencoder d)"
| "call_detector d (LoadModel outcome) = fst (load_model d outcome)"
| "call_detector d SaveModel = d"
| "call_detector d (PredictAnomaly now ev) = d"

fun successful_train :: "detector_call \<Rightarrow> bool" where
  "successful_train (TrainIsolationForest (Fitted m)) = True"
| "successful_train c = False"

fun successful_load :: "detector_call \<Rightarrow> bool" where
  "successful_load (LoadModel (Loaded obj)) = True"
| "successful_load c = False"



text \<open>Two events of one resident, at 10:00 and at 12:00 of the first day of the timeline.\<close>

definition event_10h :: access_event where
  "event_10h = \<lparr> ev_timestamp = Parsed 36000000000, ev_person_id = ''resident_001'',
                 ev_type = Some ''entry'', ev_confidence = Some (9 / 10) \<rparr>"

definition event_12h :: access_event where
  "event_12h = \<lparr> ev_timestamp = Parsed 43200000000, ev_person_id = ''resident_001'',
                 ev_type = Some ''exit'', ev_confidence = Some (9 / 10) \<rparr>"

text \<open>A stand-in for a fitted model: every row is normal, with raw score \<open>-1/2\<close>.\<close>

definition constant_model :: sk_model where
  "constant_model =
     \<lparr> sk_predict = (\<lambda>features. Inr (map (\<lambda>row. 1) features)),
       sk_score_samples = (\<lambda>features. Inr (map (\<lambda>row. - 1 / 2) features)) \<rparr>"

fun run_calls :: "AnomalyDetector \<Rightarrow> detector_call list \<Rightarrow> AnomalyDetector" where
  "run_calls d [] = d"
| "run_calls d (c # cs) = run_calls (call_detector d c) cs"

definition fresh_detector :: AnomalyDetector where
  "fresh_detector = AnomalyDetector_init ''isolation_forest'' (1 / 10)"

text \<open>Calls none of which trains or loads successfully.\<close>

definition failed_training_calls :: "detector_call list" where
  "failed_training_calls =
     [TrainIsolationForest ImportFailed, TrainLstmAutoencoder,
      TrainIsolationForest (FitRaised constant_model), LoadModel LoadRaised, SaveModel,
      PredictAnomaly 0 event_10h]"

section \<open>Facial recognition (src/api/facial\_recognition.py)\<close>

subsection \<open>Floats with infinities, and the numpy operations on one-dimensional arrays\<close>

datatype pyfloat = Fin real | PosInf | NegInf

fun fl_less :: "pyfloat \<Rightarrow> pyfloat \<Rightarrow> bool" where
  "fl_less (Fin a) (Fin b) = (a < b)"
| "fl_less (Fin a) PosInf = True"
| "fl_less NegInf (Fin b) = True"
| "fl_less NegInf PosInf = True"
| "fl_less a b = False"

text \<open>\<open>x / r\<close> for a positive finite \<open>r\<close>, and \<open>r - x\<close> for a finite \<open>r\<close>.\<close>

fun fl_div :: "pyfloat \<Rightarrow> real \<Rightarrow> pyfloat" where
  "fl_div (Fin a) r = Fin (a / r)"
| "fl_div PosInf r = PosInf"
| "fl_div NegInf r = NegInf"

fun fl_rsub :: "real \<Rightarrow> pyfloat \<Rightarrow> pyfloat" where
  "fl_rsub r (Fin a) = Fin (r - a)"
| "fl_rsub r PosInf = NegInf"
| "fl_rsub r NegInf = PosInf"

text \<open>\<^verbatim>\<open>max(0, x)\<close>: the second argument wins only when it is greater.\<close>

definition py_max0 :: "pyfloat \<Rightarrow> pyfloat" where
  "py_max0 x = (if fl_less (Fin 0) x then x else Fin 0)"

text \<open>
  An elementwise binary operation on two one-dimensional arrays: equal lengths pair up, an
  array of length one is broadcast, any other pair of shapes raises ValueError.
\<close>

definition np_broadcast ::
    "(real \<Rightarrow> real \<Rightarrow> real) \<Rightarrow> real list \<Rightarrow> real list \<Rightarrow> py_error + real list" where
  "np_broadcast f a b =
     (if length a = length b then Inr (map2 f a b)
      else if length a = 1 then Inr (map (\<lambda>y. f (hd a) y) b)
      else if length b = 1 then Inr (map (\<lambda>x. f x (hd b)) a)
      else Inl ValueError)"

definition np_subtract :: "real list \<Rightarrow> real list \<Rightarrow> py_error + real list" where
  "np_subtract a b = np_broadcast (\<lambda>x y. x - y) a b"

definition linalg_norm :: "real list \<Rightarrow> real" where
  "linalg_norm v = sqrt (sum_list (map (\<lambda>x. x\<^sup>2) v))"

subsection \<open>The engine, registration and matching\<close>

text \<open>
  \<^verbatim>\<open>known_faces\<close> is a dictionary that the matching loop iterates in insertion order, so it
  is an association list; \<^verbatim>\<open>person_names\<close> is only looked up.
\<close>

record FacialRecognitionEngine =
  confidence_threshold :: real
  known_faces :: "(string \<times> real list list) list"
  person_names :: "string \<rightharpoonup> string"

definition FacialRecognitionEngine_init :: "real \<Rightarrow> FacialRecognitionEngine" where
  "FacialRecognitionEngine_init ct =
     \<lparr> confidence_threshold = ct, known_faces = [], person_names = Map.empty \<rparr>"

definition register_face ::
    "FacialRecognitionEngine \<Rightarrow> string \<Rightarrow> string \<Rightarrow> real list \<Rightarrow> FacialRecognitionEngine \<times> bool" where
  "register_face e person_id name face_encoding =
     (let faces1 = (if person_id \<notin> set (map fst (known_faces e))
                    then known_faces e @ [(person_id, [])]
                    else known_faces e);
          faces2 = map (\<lambda>(k, encodings).
                          if k = person_id then (k, encodings @ [face_encoding])
                          else (k, encodings)) faces1
      in (e\<lparr> known_faces := faces2,
              person_names := (person_names e)(person_id \<mapsto> name) \<rparr>, True))"

record recognition =
  rec_person_id :: "string option"
  rec_name :: string
  rec_confidence :: pyfloat
  rec_timestamp :: datetime

text \<open>The inner loop over the encodings of one person, and the outer loop over the persons.\<close>

fun compare_encodings ::
    "real list \<Rightarrow> string \<Rightarrow> real list list \<Rightarrow> string option \<times> pyfloat
       \<Rightarrow> py_error + string option \<times> pyfloat" where
  "compare_encodings test_encoding person_id [] best = Inr best"
| "compare_encodings test_encoding person_id (known_encoding # rest) (best_match, best_distance) =
     (case np_subtract test_encoding known_encoding of
        Inl err \<Rightarrow> Inl err
      | Inr diff \<Rightarrow>
          (let distance = Fin (linalg_norm diff)
           in compare_encodings test_encoding person_id rest
                (if fl_less distance best_distance then (Some person_id, distance)
                 else (best_match, best_distance))))"

fun compare_persons ::
    "real list \<Rightarrow> (string \<times> real list list) list \<Rightarrow> string option \<times> pyfloat
       \<Rightarrow> py_error + string option \<times> pyfloat" where
  "compare_persons test_encoding [] best = Inr best"
| "compare_persons test_encoding ((person_id, encodings) # rest) best =
     (case compare_encodings test_encoding person_id encodings best of
        Inl err \<Rightarrow> Inl err
      | Inr best' \<Rightarrow> compare_persons test_encoding rest best')"

text \<open>The truth value of \<^verbatim>\<open>best_match\<close>: \<^verbatim>\<open>None\<close> and the empty string are false.\<close>

fun truthy :: "string option \<Rightarrow> bool" where
  "truthy None = False"
| "truthy (Some s) = (s \<noteq> [])"

definition unknown_face :: "pyfloat \<Rightarrow> datetime \<Rightarrow> recognition" where
  "unknown_face c now =
     \<lparr> rec_person_id = None, rec_name = ''Unknown'', rec_confidence = c, rec_timestamp = now \<rparr>"

text \<open>
  Lines 82 to 117 of \<^verbatim>\<open>recognize_face\<close>: the comparison of an extracted encoding with the
  registered faces.  The subtraction raises on encodings of incompatible shapes, and nothing
  in \<^verbatim>\<open>recognize_face\<close> catches it.
\<close>

definition match_encoding ::
    "datetime \<Rightarrow> FacialRecognitionEngine \<Rightarrow> real list \<Rightarrow> py_error + recognition" where
  "match_encoding now e test_encoding =
     (case compare_persons test_encoding (known_faces e) (None, PosInf) of
        Inl err \<Rightarrow> Inl err
      | Inr (best_match, best_distance) \<Rightarrow>
          (let confidence = py_max0 (fl_rsub 1 (fl_div best_distance 1));
               is_match = fl_less best_distance (Fin (7 / 10))
           in if is_match \<and> truthy best_match
              then (case best_match of
                      None \<Rightarrow> Inr (unknown_face confidence now)
                    | Some p \<Rightarrow>
                        Inr \<lparr> rec_person_id = best_match,
                              rec_name = (case person_names e p of
                                            None \<Rightarrow> ''Unknown'' | Some n \<Rightarrow> n),
                              rec_confidence = confidence,
                              rec_timestamp = now \<rparr>)
              else Inr (unknown_face confidence now)))"

text \<open>
  The registry as the flat list of (person, encoding) pairs in iteration order, and the
  Euclidean distance between two encodings of one length.
\<close>

definition enrolled :: "FacialRecognitionEngine \<Rightarrow> (string \<times> real list) list" where
  "enrolled e = concat (map (\<lambda>(p, encodings). map (Pair p) encodings) (known_faces e))"

definition euclidean :: "real list \<Rightarrow> real list \<Rightarrow> real" where
  "euclidean a b = sqrt (\<Sum>(x, y) \<leftarrow> zip a b. (x - y)\<^sup>2)"

text \<open>What \<^verbatim>\<open>person_names.get(p, 'Unknown')\<close> returns.\<close>

definition display_name :: "FacialRecognitionEngine \<Rightarrow> string \<Rightarrow> string" where
  "display_name e p = (case person_names e p of None \<Rightarrow> ''Unknown'' | Some n \<Rightarrow> n)"

subsection \<open>Feature extraction\<close>

text \<open>
  OpenCV is outside the repository.  An image is a value of an unspecified type, and the
  calls that \<^verbatim>\<open>_extract_face_features\<close> and \<^verbatim>\<open>recognize_face\<close> make on images are the
  fields of a backend: the numpy slice \<^verbatim>\<open>frame[y:y+h, x:x+w]\<close>, \<^verbatim>\<open>ndarray.size\<close>, and the
  four OpenCV calls, each of which may raise (\<open>None\<close>).  A grey image is the list of its
  8-bit pixels in row-major order, and so is each Sobel derivative.
\<close>

type_synonym gray_image = "8 word list"

record 'img cv2_backend =
  np_slice :: "'img \<Rightarrow> int \<times> int \<times> int \<times> int \<Rightarrow> 'img"
  np_size :: "'img \<Rightarrow> nat"
  cv2_resize_64 :: "'img \<Rightarrow> 'img option"
  cv2_cvtColor_gray :: "'img \<Rightarrow> gray_image option"
  cv2_equalizeHist :: "gray_image \<Rightarrow> gray_image option"
  cv2_Sobel :: "gray_image \<Rightarrow> nat \<Rightarrow> nat \<Rightarrow> real list option"

text \<open>\<^verbatim>\<open>np.arctan2(y, x)\<close>, the angle of the point \<open>(x, y)\<close> in \<open>[-\<pi>, \<pi>]\<close>.\<close>

definition np_arctan2 :: "real \<Rightarrow> real \<Rightarrow> real" where
  "np_arctan2 y x =
     (if x > 0 then arctan (y / x)
      else if x < 0 \<and> y \<ge> 0 then arctan (y / x) + pi
      else if x < 0 then arctan (y / x) - pi
      else if y > 0 then pi / 2
      else if y < 0 then - pi / 2
      else 0)"

text \<open>\<^verbatim>\<open>np.linspace(start, stop, num)\<close> for \<open>num > 1\<close>.\<close>

definition np_linspace :: "real \<Rightarrow> real \<Rightarrow> nat \<Rightarrow> real list" where
  "np_linspace start stop num =
     map (\<lambda>i. start + real i * ((stop - start) / real (num - 1))) [0..<num]"

text \<open>
  \<^verbatim>\<open>np.histogram(a, bins=edges, weights=w)\<close>: one sum of weights per pair of neighbouring
  edges; a bin is closed on the left and open on the right, except the last, which is closed
  on both sides.  Arrays of different shapes raise.
\<close>

definition in_bin :: "real list \<Rightarrow> nat \<Rightarrow> real \<Rightarrow> bool" where
  "in_bin edges i x =
     (edges ! i \<le> x \<and> (if i + 2 = length edges then x \<le> edges ! (i + 1) else x < edges ! (i + 1)))"

definition np_histogram :: "real list \<Rightarrow> real list \<Rightarrow> real list \<Rightarrow> py_error + real list" where
  "np_histogram a edges w =
     (if length a \<noteq> length w then Inl ValueError
      else Inr (map (\<lambda>i. sum_list (map snd (filter (\<lambda>(x, wx). in_bin edges i x) (zip a w))))
                  [0..<length edges - 1]))"

text \<open>
  \<^verbatim>\<open>cv2.calcHist([gray], [0], None, [64], [0, 256]).flatten()\<close>: 64 uniform bins over
  \<open>[0, 256)\<close>, so a pixel \<open>v\<close> is counted in bin \<open>v div 4\<close>.
\<close>

definition cv2_calcHist_64 :: "gray_image \<Rightarrow> real list" where
  "cv2_calcHist_64 gray =
     map (\<lambda>b. real (length (filter (\<lambda>v. unat v div 4 = b) gray))) [0..<64]"

text \<open>Lines 185 to 190: truncation or zero padding to 128 elements.\<close>

definition fit_128 :: "real list \<Rightarrow> real list" where
  "fit_128 combined_features =
     (if length combined_features > 128 then take 128 combined_features
      else if length combined_features < 128
           then combined_features @ replicate (128 - length combined_features) 0
           else combined_features)"

text \<open>
  Lines 193 and 194: the norm and the guard.  The result is the divisor of the division that
  the guard lets through, and \<open>None\<close> when the guard skips the division.
\<close>

definition guarded_divisor :: "real list \<Rightarrow> real option" where
  "guarded_divisor combined_features =
     (let norm = linalg_norm combined_features
      in if norm > 0 then Some norm else None)"

text \<open>Lines 192 to 197: the division by the norm where the guard allows it, and the return.\<close>

definition normalize_and_return :: "real list \<Rightarrow> real list option" where
  "normalize_and_return combined_features =
     (case guarded_divisor combined_features of
        Some divisor \<Rightarrow> Some (map (\<lambda>x. x / divisor) combined_features)
      | None \<Rightarrow> Some combined_features)"

text \<open>Lines 175 to 183: the two histograms, concatenated; \<open>None\<close> stands for a raised exception.\<close>

definition combined_histograms :: "gray_image \<Rightarrow> real list \<Rightarrow> real list \<Rightarrow> real list option" where
  "combined_histograms gray sobelx sobely =
     (case np_broadcast (\<lambda>gx gy. sqrt (gx\<^sup>2 + gy\<^sup>2)) sobelx sobely of
        Inl err \<Rightarrow> None
      | Inr magnitude \<Rightarrow>
          (case np_broadcast np_arctan2 sobely sobelx of
             Inl err \<Rightarrow> None
           | Inr direction \<Rightarrow>
               (let hist_edges = np_linspace (- pi) pi 9
                in case np_histogram direction hist_edges magnitude of
                     Inl err \<Rightarrow> None
                   | Inr hist_grad \<Rightarrow>
                       (let hist_gray = cv2_calcHist_64 gray
                        in Some (hist_grad @ hist_gray)))))"

text \<open>
  \<^verbatim>\<open>_extract_face_features\<close>.  Every exception is caught and turned into \<^verbatim>\<open>None\<close>; the cast
  to float32 at the end is the identity on reals.
\<close>

definition extract_face_features :: "'img cv2_backend \<Rightarrow> 'img option \<Rightarrow> real list option" where
  "extract_face_features cv face_roi =
     (case face_roi of
        None \<Rightarrow> None
      | Some roi \<Rightarrow>
          if np_size cv roi = 0 then None
          else
            (case cv2_resize_64 cv roi of
               None \<Rightarrow> None
             | Some resized \<Rightarrow>
                 (case cv2_cvtColor_gray cv resized of
                    None \<Rightarrow> None
                  | Some gray0 \<Rightarrow>
                      (case cv2_equalizeHist cv gray0 of
                         None \<Rightarrow> None
                       | Some gray \<Rightarrow>
                           (case cv2_Sobel cv gray 1 0 of
                              None \<Rightarrow> None
                            | Some sobelx \<Rightarrow>
                                (case cv2_Sobel cv gray 0 1 of
                                   None \<Rightarrow> None
                                 | Some sobely \<Rightarrow>
                                     (case combined_histograms gray sobelx sobely of
                                        None \<Rightarrow> None
                                      | Some combined_features \<Rightarrow>
                                          normalize_and_return (fit_128 combined_features))))))))"

text \<open>\<^verbatim>\<open>recognize_face\<close>: crop, extract, and compare when there is an encoding.\<close>

definition recognize_face ::
    "'img cv2_backend \<Rightarrow> datetime \<Rightarrow> FacialRecognitionEngine \<Rightarrow> 'img \<Rightarrow> int \<times> int \<times> int \<times> int
       \<Rightarrow> py_error + recognition" where
  "recognize_face cv now e frame face_location =
     (let face_roi = np_slice cv frame face_location
      in case extract_face_features cv (Some face_roi) of
           None \<Rightarrow> Inr (unknown_face (Fin 0) now)
         | Some test_encoding \<Rightarrow> match_encoding now e test_encoding)"

text \<open>
  What the model takes from OpenCV's resize to 64 by 64: the equalised grey image has 4096
  pixels.
\<close>

definition resizes_to_64x64 :: "'img cv2_backend \<Rightarrow> bool" where
  "resizes_to_64x64 cv =
     (\<forall>roi resized gray0 gray.
        cv2_resize_64 cv roi = Some resized \<longrightarrow> cv2_cvtColor_gray cv resized = Some gray0 \<longrightarrow>
        cv2_equalizeHist cv gray0 = Some gray \<longrightarrow> length gray = 4096)"

subsection \<open>Engines and a backend for concrete runs\<close>

definition two_residents :: FacialRecognitionEngine where
  "two_residents =
     fst (register_face
            (fst (register_face (FacialRecognitionEngine_init (6 / 10))
                    ''resident_001'' ''John Doe'' [1, 0]))
            ''resident_002'' ''Jane Smith'' [0, 1])"

text \<open>One person registered under the empty string.\<close>

definition blank_id_engine :: FacialRecognitionEngine where
  "blank_id_engine =
     fst (register_face (FacialRecognitionEngine_init (6 / 10)) [] ''Nobody'' [1, 0])"

text \<open>Two persons registered with the same encoding, one after the other.\<close>

definition same_face_twice :: FacialRecognitionEngine where
  "same_face_twice =
     fst (register_face
            (fst (register_face (FacialRecognitionEngine_init (6 / 10))
                    ''resident_001'' ''John Doe'' [1, 0]))
            ''resident_002'' ''Jane Smith'' [1, 0])"

text \<open>
  A backend on images that are just a pixel count: every crop becomes the uniformly black
  64 by 64 image, whose derivatives vanish.
\<close>

definition flat_backend :: "nat cv2_backend" where
  "flat_backend =
     \<lparr> np_slice = (\<lambda>frame (x, y, w, h). nat w * nat h),
       np_size = (\<lambda>img. img),
       cv2_resize_64 = (\<lambda>img. Some 4096),
       cv2_cvtColor_gray = (\<lambda>img. Some (replicate img 0)),
       cv2_equalizeHist = (\<lambda>gray. Some gray),
       cv2_Sobel = (\<lambda>gray dx dy. Some (replicate (length gray) 0)) \<rparr>"

text \<open>
  What the extractor returns for the uniformly black crop, and a vector that agrees with it
  on the first 72 positions and has a one at position 72; each is the only enrolment of an
  engine.
\<close>

definition black_crop_features :: "real list" where
  "black_crop_features = replicate 8 0 @ [1] @ replicate 119 0"

definition features_with_tail :: "real list" where
  "features_with_tail = replicate 8 0 @ [1] @ replicate 63 0 @ [1] @ replicate 55 0"

definition black_crop_engine :: FacialRecognitionEngine where
  "black_crop_engine =
     fst (register_face (FacialRecognitionEngine_init (6 / 10))
            ''resident_001'' ''John Doe'' black_crop_features)"

definition tail_engine :: FacialRecognitionEngine where
  "tail_engine =
     fst (register_face (FacialRecognitionEngine_init (6 / 10))
            ''resident_001'' ''John Doe'' features_with_tail)"

section \<open>Threat detection: results\<close>

lemma length_filter_failed_in_window:
  "length (filter (\<lambda>attempt. fst attempt > ws \<and> snd attempt = p) xs) = failed_in_window ws p xs"
  by (induction xs) auto

lemma length_recent_failures:
  "length (recent_failures now d p) = failed_count_in_window now d p"
  by (simp add: recent_failures_def failed_count_in_window_def length_filter_failed_in_window)

text \<open>
  C5.  \<^verbatim>\<open>check_failed_access_attempts\<close> returns an alert exactly when the number of
  the person's failed attempts inside the trailing window is at least the configured
  threshold; the alert has severity HIGH and reports that count.  A count equal to the
  threshold triggers, a count of threshold minus one does not.
\<close>

theorem check_failed_access_attempts_threshold:
  "(check_failed_access_attempts now d p \<noteq> None \<longleftrightarrow>
      failed_attempt_threshold d \<le> int (failed_count_in_window now d p))
   \<and> (\<forall>a. check_failed_access_attempts now d p = Some a \<longrightarrow>
          severity a = ''HIGH'' \<and> threat_type a = ''REPEATED_FAILED_ACCESS''
          \<and> alert_person_id a = p \<and> failed_count a = failed_count_in_window now d p)
   \<and> (int (failed_count_in_window now d p) = failed_attempt_threshold d \<longrightarrow>
          check_failed_access_attempts now d p \<noteq> None)
   \<and> (int (failed_count_in_window now d p) = failed_attempt_threshold d - 1 \<longrightarrow>
          check_failed_access_attempts now d p = None)"
  by (auto simp: check_failed_access_attempts_def Let_def length_recent_failures)

theorem check_failed_access_attempts_threshold_witness:
  "int (failed_count_in_window 120000000 scenario_three_failures ''unknown_001'')
     = failed_attempt_threshold scenario_three_failures
   \<and> (\<exists>a. check_failed_access_attempts 120000000 scenario_three_failures ''unknown_001'' = Some a
          \<and> severity a = ''HIGH'' \<and> failed_count a = 3)
   \<and> int (failed_count_in_window 60000000 scenario_two_failures ''unknown_001'')
     = failed_attempt_threshold scenario_two_failures - 1
   \<and> check_failed_access_attempts 60000000 scenario_two_failures ''unknown_001'' = None"
proof -
  have c3: "int (failed_count_in_window 120000000 scenario_three_failures ''unknown_001'')
              = failed_attempt_threshold scenario_three_failures"
    by (simp add: failed_count_in_window_def scenario_three_failures_def ThreatDetector_init_def
          log_access_attempt_def timedelta_minutes_def)
  have c2: "int (failed_count_in_window 60000000 scenario_two_failures ''unknown_001'')
              = failed_attempt_threshold scenario_two_failures - 1"
    by (simp add: failed_count_in_window_def scenario_two_failures_def ThreatDetector_init_def
          log_access_attempt_def timedelta_minutes_def)
  have n3: "failed_count_in_window 120000000 scenario_three_failures ''unknown_001'' = 3"
    by (simp add: failed_count_in_window_def scenario_three_failures_def ThreatDetector_init_def
          log_access_attempt_def timedelta_minutes_def)
  from check_failed_access_attempts_threshold
         [of 120000000 scenario_three_failures "''unknown_001''"] c3
  obtain a where "check_failed_access_attempts 120000000 scenario_three_failures ''unknown_001'' = Some a"
    and "severity a = ''HIGH''" and "failed_count a = 3"
    using n3 by (metis not_Some_eq)
  moreover from check_failed_access_attempts_threshold
         [of 60000000 scenario_two_failures "''unknown_001''"] c2
  have "check_failed_access_attempts 60000000 scenario_two_failures ''unknown_001'' = None"
    by blast
  ultimately show ?thesis using c2 c3 by blast
qed

lemma log_access_attempts_length_access_log:
  "length (access_log (log_access_attempts d xs)) = length (access_log d) + length xs"
  by (induction d xs rule: log_access_attempts.induct)
     (auto simp: log_access_attempt_def Let_def)

lemma log_access_attempts_length_failed_attempts:
  "length (failed_attempts (log_access_attempts d xs))
     = length (failed_attempts d) + length (filter (\<lambda>(now1, now2, p, success). \<not> success) xs)"
  by (induction d xs rule: log_access_attempts.induct)
     (auto simp: log_access_attempt_def Let_def)

lemma log_access_attempts_keeps_access_log:
  "\<exists>ys. access_log (log_access_attempts d xs) = access_log d @ ys"
  by (induction d xs rule: log_access_attempts.induct)
     (auto simp: log_access_attempt_def Let_def)

lemma log_access_attempts_keeps_failed_attempts:
  "\<exists>ys. failed_attempts (log_access_attempts d xs) = failed_attempts d @ ys"
  by (induction d xs rule: log_access_attempts.induct)
     (auto simp: log_access_attempt_def Let_def)

text \<open>
  C6, as stated, fails: a day after the first failure, and after a second failure has been
  logged, the first entry lies outside the ten-minute window and is still in the history.
\<close>

theorem history_unpruned_counterexample:
  "outside_window 86400000000 scenario_stale_failure = [(0, ''unknown_001'')]"
  by (simp add: outside_window_def scenario_stale_failure_def ThreatDetector_init_def
        log_access_attempt_def timedelta_minutes_def)

text \<open>
  C6, amended.  The histories are append-only: a run of \<^verbatim>\<open>log_access_attempt\<close> calls
  lengthens the access log by one entry per call and the failed-attempt history by one entry
  per failed call, and keeps every earlier entry in place.  The rules filter on the window
  when they are evaluated and leave the histories as they are.
\<close>

theorem log_access_attempts_append_only:
  "length (access_log (log_access_attempts d xs)) = length (access_log d) + length xs
   \<and> length (failed_attempts (log_access_attempts d xs))
       = length (failed_attempts d) + length (filter (\<lambda>(now1, now2, p, success). \<not> success) xs)
   \<and> take (length (access_log d)) (access_log (log_access_attempts d xs)) = access_log d
   \<and> take (length (failed_attempts d)) (failed_attempts (log_access_attempts d xs))
       = failed_attempts d"
proof -
  have "\<exists>ys. access_log (log_access_attempts d xs) = access_log d @ ys"
    by (rule log_access_attempts_keeps_access_log)
  then have a: "take (length (access_log d)) (access_log (log_access_attempts d xs)) = access_log d"
    by auto
  have "\<exists>ys. failed_attempts (log_access_attempts d xs) = failed_attempts d @ ys"
    by (rule log_access_attempts_keeps_failed_attempts)
  then have f: "take (length (failed_attempts d)) (failed_attempts (log_access_attempts d xs))
                  = failed_attempts d"
    by auto
  show ?thesis
    using a f log_access_attempts_length_access_log [of d xs]
      log_access_attempts_length_failed_attempts [of d xs] by simp
qed

section \<open>Anomaly detection: results\<close>



lemma call_detector_untrained:
  assumes "\<not> is_trained d" and "\<not> successful_train c" and "\<not> successful_load c"
  shows "\<not> is_trained (call_detector d c)"
proof (cases c)
  case (TrainIsolationForest outcome)
  with assms show ?thesis by (cases outcome) auto
next
  case TrainLstmAutoencoder
  with assms show ?thesis by (simp add: train_lstm_autoencoder_def)
next
  case (LoadModel outcome)
  with assms show ?thesis by (cases outcome) auto
next
  case SaveModel
  with assms show ?thesis by simp
next
  case (PredictAnomaly now ev)
  with assms show ?thesis by simp
qed

lemma run_calls_untrained:
  "\<not> is_trained d \<Longrightarrow> list_all (\<lambda>c. \<not> successful_train c \<and> \<not> successful_load c) calls \<Longrightarrow> \<not> is_trained (run_calls d calls)"
  by (induction d calls rule: run_calls.induct) (auto simp: call_detector_untrained)

text \<open>
  C7, amended.  \<^verbatim>\<open>predict_anomaly\<close> returns the neutral verdict (not an anomaly, score 0,
  reason "Model not trained") for every event as long as \<^verbatim>\<open>is_trained\<close> is unset: from an
  untrained detector, after any run of calls none of which is a successful
  \<^verbatim>\<open>train_isolation_forest\<close> or a successful \<^verbatim>\<open>load_model\<close>.
\<close>

theorem predict_anomaly_untrained:
  "\<not> is_trained d \<Longrightarrow>
   list_all (\<lambda>c. \<not> successful_train c \<and> \<not> successful_load c) calls \<Longrightarrow>
   predict_anomaly now (run_calls d calls) ev = neutral_verdict
   \<and> is_anomaly (predict_anomaly now (run_calls d calls) ev) = False
   \<and> anomaly_score (predict_anomaly now (run_calls d calls) ev) = 0
   \<and> reason (predict_anomaly now (run_calls d calls) ev) = Some ''Model not trained''"
  using run_calls_untrained [of d calls]
  by (simp add: predict_anomaly_def neutral_verdict_def)

theorem predict_anomaly_untrained_witness:
  "\<not> is_trained fresh_detector
   \<and> list_all (\<lambda>c. \<not> successful_train c \<and> \<not> successful_load c) failed_training_calls
   \<and> predict_anomaly 0 (run_calls fresh_detector failed_training_calls) event_12h = neutral_verdict"
proof -
  have a: "\<not> is_trained fresh_detector"
    by (simp add: fresh_detector_def AnomalyDetector_init_def)
  have b: "list_all (\<lambda>c. \<not> successful_train c \<and> \<not> successful_load c) failed_training_calls"
    by (simp add: failed_training_calls_def)
  show ?thesis
    using a b predict_anomaly_untrained [OF a b, of 0 event_12h] by simp
qed

text \<open>
  C7, as stated, fails: \<^verbatim>\<open>load_model\<close> sets \<^verbatim>\<open>is_trained\<close> too.  After a successful
  load and no train call at all, the verdict carries a computed score and no reason.
\<close>

theorem predict_after_load_counterexample:
  "\<not> successful_train (LoadModel (Loaded (Some constant_model)))
   \<and> reason (predict_anomaly 0 (run_calls fresh_detector [LoadModel (Loaded (Some constant_model))])
        event_10h) = None
   \<and> anomaly_score (predict_anomaly 0 (run_calls fresh_detector [LoadModel (Loaded (Some constant_model))])
        event_10h) = 1 / (1 + exp (- 1 / 2))"
  by (simp add: predict_anomaly_def predict_features_def extract_features_def feature_vector_def
        fresh_detector_def AnomalyDetector_init_def constant_model_def event_10h_def Let_def)





section \<open>Facial recognition: results\<close>

lemma fl_less_trans_not: "fl_less x b' \<Longrightarrow> \<not> fl_less b b' \<Longrightarrow> fl_less x b"
  by (cases x; cases b; cases b') auto

lemma fl_less_irrefl: "\<not> fl_less b b"
  by (cases b) auto

lemma fl_not_less_trans: "\<not> fl_less b b' \<Longrightarrow> \<not> fl_less b' b'' \<Longrightarrow> \<not> fl_less b b''"
  by (cases b; cases b'; cases b'') auto

lemma fl_less_imp_not: "fl_less a b \<Longrightarrow> \<not> fl_less b a"
  by (cases a; cases b) auto

lemma np_subtract_same_length:
  "length k = length t \<Longrightarrow> np_subtract t k = Inr (map2 (\<lambda>x y. x - y) t k)"
  by (simp add: np_subtract_def np_broadcast_def)

lemma linalg_norm_map2: "linalg_norm (map2 (\<lambda>x y. x - y) t k) = euclidean t k"
  by (simp add: linalg_norm_def euclidean_def o_def split_def)

lemma compare_encodings_invariant:
  assumes "\<forall>k \<in> set ks. length k = length t"
  shows "\<exists>bm' bd'. compare_encodings t p ks (bm, bd) = Inr (bm', bd')
           \<and> (\<forall>k \<in> set ks. \<not> fl_less (Fin (euclidean t k)) bd')
           \<and> \<not> fl_less bd bd'
           \<and> ((bm', bd') = (bm, bd) \<or> (\<exists>k \<in> set ks. bm' = Some p \<and> bd' = Fin (euclidean t k)))"
  using assms
proof (induction ks arbitrary: bm bd)
  case Nil
  then show ?case by (simp add: fl_less_irrefl)
next
  case (Cons k ks)
  let ?d = "Fin (euclidean t k)"
  let ?best = "if fl_less ?d bd then (Some p, ?d) else (bm, bd)"
  have step: "compare_encodings t p (k # ks) (bm, bd) = compare_encodings t p ks ?best"
    using Cons.prems by (simp add: np_subtract_same_length linalg_norm_map2)
  from Cons.prems have shapes: "\<forall>k \<in> set ks. length k = length t" by simp
  from Cons.IH [OF shapes, of "fst ?best" "snd ?best"]
  obtain bm' bd' where r: "compare_encodings t p ks ?best = Inr (bm', bd')"
    and low: "\<forall>k \<in> set ks. \<not> fl_less (Fin (euclidean t k)) bd'"
    and mono: "\<not> fl_less (snd ?best) bd'"
    and src: "(bm', bd') = ?best \<or> (\<exists>k \<in> set ks. bm' = Some p \<and> bd' = Fin (euclidean t k))"
    by auto
  have d_low: "\<not> fl_less ?d (snd ?best)"
    by (simp add: fl_less_irrefl)
  have bd_low: "\<not> fl_less bd (snd ?best)"
    by (auto simp: fl_less_irrefl fl_less_imp_not)
  have 1: "\<not> fl_less ?d bd'" using d_low mono fl_not_less_trans by blast
  have 2: "\<not> fl_less bd bd'" using bd_low mono fl_not_less_trans by blast
  have 3: "(bm', bd') = (bm, bd) \<or> (\<exists>k' \<in> set (k # ks). bm' = Some p \<and> bd' = Fin (euclidean t k'))"
    using src by (auto split: if_splits)
  show ?case
    using step r low 1 2 3 by auto
qed

lemma compare_persons_invariant:
  assumes "\<forall>(q, encodings) \<in> set reg. \<forall>k \<in> set encodings. length k = length t"
  shows "\<exists>bm' bd'. compare_persons t reg (bm, bd) = Inr (bm', bd')
           \<and> (\<forall>(q, encodings) \<in> set reg. \<forall>k \<in> set encodings. \<not> fl_less (Fin (euclidean t k)) bd')
           \<and> \<not> fl_less bd bd'
           \<and> ((bm', bd') = (bm, bd)
                \<or> (\<exists>(q, encodings) \<in> set reg. \<exists>k \<in> set encodings.
                      bm' = Some q \<and> bd' = Fin (euclidean t k)))"
  using assms
proof (induction reg arbitrary: bm bd)
  case Nil
  then show ?case by (simp add: fl_less_irrefl)
next
  case (Cons pe reg)
  obtain p encs where pe: "pe = (p, encs)" by (cases pe)
  from Cons.prems pe have s1: "\<forall>k \<in> set encs. length k = length t" by auto
  from Cons.prems have s2: "\<forall>(q, encodings) \<in> set reg. \<forall>k \<in> set encodings. length k = length t"
    by auto
  from compare_encodings_invariant [OF s1, of p bm bd]
  obtain bm1 bd1 where r1: "compare_encodings t p encs (bm, bd) = Inr (bm1, bd1)"
    and low1: "\<forall>k \<in> set encs. \<not> fl_less (Fin (euclidean t k)) bd1"
    and mono1: "\<not> fl_less bd bd1"
    and src1: "(bm1, bd1) = (bm, bd) \<or> (\<exists>k \<in> set encs. bm1 = Some p \<and> bd1 = Fin (euclidean t k))"
    by blast
  from Cons.IH [OF s2, of bm1 bd1]
  obtain bm' bd' where r2: "compare_persons t reg (bm1, bd1) = Inr (bm', bd')"
    and low2: "\<forall>(q, encodings) \<in> set reg. \<forall>k \<in> set encodings. \<not> fl_less (Fin (euclidean t k)) bd'"
    and mono2: "\<not> fl_less bd1 bd'"
    and src2: "(bm', bd') = (bm1, bd1)
                \<or> (\<exists>(q, encodings) \<in> set reg. \<exists>k \<in> set encodings.
                      bm' = Some q \<and> bd' = Fin (euclidean t k))"
    by blast
  have r: "compare_persons t (pe # reg) (bm, bd) = Inr (bm', bd')"
    using pe r1 r2 by simp
  have a: "\<forall>k \<in> set encs. \<not> fl_less (Fin (euclidean t k)) bd'"
    using low1 mono2 fl_not_less_trans by blast
  have b: "\<not> fl_less bd bd'"
    using mono1 mono2 fl_not_less_trans by blast
  have c: "(bm', bd') = (bm, bd)
                \<or> (\<exists>(q, encodings) \<in> set (pe # reg). \<exists>k \<in> set encodings.
                      bm' = Some q \<and> bd' = Fin (euclidean t k))"
    using src1 src2 pe by auto
  show ?case
    using r a b c low2 pe by auto
qed

lemma set_enrolled:
  "set (enrolled e) = {(p, k). \<exists>encodings. (p, encodings) \<in> set (known_faces e) \<and> k \<in> set encodings}"
  by (auto simp: enrolled_def)

lemma compare_persons_nearest:
  assumes shapes: "\<forall>(p, k) \<in> set (enrolled e). length k = length t"
    and nonempty: "enrolled e \<noteq> []"
  shows "\<exists>p k. (p, k) \<in> set (enrolled e)
           \<and> compare_persons t (known_faces e) (None, PosInf) = Inr (Some p, Fin (euclidean t k))
           \<and> (\<forall>(q, j) \<in> set (enrolled e). euclidean t k \<le> euclidean t j)"
proof -
  have s: "\<forall>(q, encodings) \<in> set (known_faces e). \<forall>k \<in> set encodings. length k = length t"
    using shapes by (auto simp: set_enrolled)
  from compare_persons_invariant [OF s, of None PosInf]
  obtain bm' bd' where r: "compare_persons t (known_faces e) (None, PosInf) = Inr (bm', bd')"
    and low: "\<forall>(q, encodings) \<in> set (known_faces e). \<forall>k \<in> set encodings.
                 \<not> fl_less (Fin (euclidean t k)) bd'"
    and src: "(bm', bd') = (None, PosInf)
                \<or> (\<exists>(q, encodings) \<in> set (known_faces e). \<exists>k \<in> set encodings.
                      bm' = Some q \<and> bd' = Fin (euclidean t k))"
    by blast
  from nonempty obtain q0 k0 where "(q0, k0) \<in> set (enrolled e)"
    by (cases "enrolled e") auto
  then have "\<not> fl_less (Fin (euclidean t k0)) bd'"
    using low by (auto simp: set_enrolled)
  then have "bd' \<noteq> PosInf" by auto
  with src obtain p encs k where m: "(p, encs) \<in> set (known_faces e)" "k \<in> set encs"
    "bm' = Some p" "bd' = Fin (euclidean t k)"
    by auto
  have "\<forall>(q, j) \<in> set (enrolled e). euclidean t k \<le> euclidean t j"
    using low m by (fastforce simp: set_enrolled)
  moreover have "(p, k) \<in> set (enrolled e)" using m by (auto simp: set_enrolled)
  ultimately show ?thesis using r m by blast
qed


lemma sum_squares_nonneg: "0 \<le> (\<Sum>(x, y) \<leftarrow> zip a b. (x - y)\<^sup>2 :: real)"
  by (rule sum_list_nonneg) auto

lemma euclidean_nonneg: "0 \<le> euclidean a b"
  by (simp add: euclidean_def sum_squares_nonneg)

lemma euclidean_self: "euclidean v v = 0"
  by (induction v) (auto simp: euclidean_def)

lemma sum_squares_zero:
  "length a = length b \<Longrightarrow> (\<Sum>(x, y) \<leftarrow> zip a b. (x - y)\<^sup>2 :: real) = 0 \<Longrightarrow> a = b"
proof (induction a b rule: list_induct2)
  case Nil
  then show ?case by simp
next
  case (Cons x xs y ys)
  have "0 \<le> (\<Sum>(x, y) \<leftarrow> zip xs ys. (x - y)\<^sup>2)" by (rule sum_squares_nonneg)
  moreover have "0 \<le> (x - y)\<^sup>2" by simp
  moreover from Cons.prems have "(x - y)\<^sup>2 + (\<Sum>(x, y) \<leftarrow> zip xs ys. (x - y)\<^sup>2) = 0"
    by simp
  ultimately have "(x - y)\<^sup>2 = 0" and "(\<Sum>(x, y) \<leftarrow> zip xs ys. (x - y)\<^sup>2) = 0"
    by linarith+
  with Cons.IH show ?case by simp
qed

lemma euclidean_zero: "length a = length b \<Longrightarrow> euclidean a b = 0 \<Longrightarrow> a = b"
  using sum_squares_zero [of a b] by (simp add: euclidean_def)

lemma match_encoding_nearest_aux:
  assumes shapes: "\<forall>(p, k) \<in> set (enrolled e). length k = length t"
    and nonempty: "enrolled e \<noteq> []"
    and ids: "\<forall>(p, k) \<in> set (enrolled e). p \<noteq> []"
  shows "\<exists>p k. (p, k) \<in> set (enrolled e)
           \<and> (\<forall>(q, j) \<in> set (enrolled e). euclidean t k \<le> euclidean t j)
           \<and> match_encoding now e t =
                 Inr (if euclidean t k < 7 / 10
                      then \<lparr> rec_person_id = Some p, rec_name = display_name e p,
                             rec_confidence = Fin (max 0 (1 - euclidean t k)), rec_timestamp = now \<rparr>
                      else unknown_face (Fin (max 0 (1 - euclidean t k))) now)"
proof -
  from compare_persons_nearest [OF shapes nonempty]
  obtain p k where m: "(p, k) \<in> set (enrolled e)"
    and r: "compare_persons t (known_faces e) (None, PosInf) = Inr (Some p, Fin (euclidean t k))"
    and low: "\<forall>(q, j) \<in> set (enrolled e). euclidean t k \<le> euclidean t j"
    by blast
  from ids m have "p \<noteq> []" by auto
  then have "match_encoding now e t =
                 Inr (if euclidean t k < 7 / 10
                      then \<lparr> rec_person_id = Some p, rec_name = display_name e p,
                             rec_confidence = Fin (max 0 (1 - euclidean t k)), rec_timestamp = now \<rparr>
                      else unknown_face (Fin (max 0 (1 - euclidean t k))) now)"
    using r by (auto simp: match_encoding_def py_max0_def display_name_def max_def)
  with m low show ?thesis by blast
qed

text \<open>
  C1, amended.  For every query encoding and every registry that holds at least one encoding,
  all of the query's length and all under non-empty person ids, the comparison takes the
  minimum of the Euclidean distances to all enrolled encodings of all persons, reports the
  confidence \<open>max 0 (1 - d)\<close> for that minimum \<open>d\<close>, and returns a person, one who has an
  encoding at that distance, exactly when \<open>d < 0.7\<close>; otherwise the identity is null and the
  name is "Unknown".
\<close>

theorem match_encoding_nearest:
  assumes shapes: "\<forall>(p, k) \<in> set (enrolled e). length k = length t"
    and nonempty: "enrolled e \<noteq> []"
    and ids: "\<forall>(p, k) \<in> set (enrolled e). p \<noteq> []"
  shows "\<exists>r d. match_encoding now e t = Inr r
           \<and> d = Min ((\<lambda>(p, k). euclidean t k) ` set (enrolled e))
           \<and> rec_confidence r = Fin (max 0 (1 - d))
           \<and> (rec_person_id r \<noteq> None \<longleftrightarrow> d < 7 / 10)
           \<and> (d < 7 / 10 \<longrightarrow>
                 (\<exists>p k. (p, k) \<in> set (enrolled e) \<and> euclidean t k = d
                    \<and> rec_person_id r = Some p \<and> rec_name r = display_name e p))
           \<and> (\<not> d < 7 / 10 \<longrightarrow> rec_person_id r = None \<and> rec_name r = ''Unknown'')"
proof -
  from match_encoding_nearest_aux [OF shapes nonempty ids, of now]
  obtain p k where m: "(p, k) \<in> set (enrolled e)"
    and low: "\<forall>(q, j) \<in> set (enrolled e). euclidean t k \<le> euclidean t j"
    and r: "match_encoding now e t =
                 Inr (if euclidean t k < 7 / 10
                      then \<lparr> rec_person_id = Some p, rec_name = display_name e p,
                             rec_confidence = Fin (max 0 (1 - euclidean t k)), rec_timestamp = now \<rparr>
                      else unknown_face (Fin (max 0 (1 - euclidean t k))) now)"
    by blast
  have "Min ((\<lambda>(p, k). euclidean t k) ` set (enrolled e)) = euclidean t k"
  proof (rule Min_eqI)
    show "finite ((\<lambda>(p, k). euclidean t k) ` set (enrolled e))" by simp
    show "\<And>y. y \<in> (\<lambda>(p, k). euclidean t k) ` set (enrolled e) \<Longrightarrow> euclidean t k \<le> y"
      using low by auto
    show "euclidean t k \<in> (\<lambda>(p, k). euclidean t k) ` set (enrolled e)"
      using m by force
  qed
  with m r show ?thesis
    by (auto simp: unknown_face_def)
qed

lemma pairs_after_append:
  "(q, k) \<in> set (concat (map (\<lambda>(q, encodings). map (Pair q) encodings)
          (map (\<lambda>(k, encodings). if k = p then (k, encodings @ [v]) else (k, encodings)) reg)))
   \<longleftrightarrow> (q, k) \<in> set (concat (map (\<lambda>(q, encodings). map (Pair q) encodings) reg))
       \<or> (q = p \<and> k = v \<and> p \<in> fst ` set reg)"
proof (induction reg)
  case Nil
  then show ?case by simp
next
  case (Cons x reg)
  obtain a b where x: "x = (a, b)" by (cases x)
  show ?case
  proof (cases "a = p")
    case True
    with x Cons.IH show ?thesis by auto
  next
    case False
    with x Cons.IH show ?thesis by auto
  qed
qed

lemma set_enrolled_register:
  "set (enrolled (fst (register_face e p name v))) = insert (p, v) (set (enrolled e))"
proof (cases "p \<in> fst ` set (known_faces e)")
  case True
  then have "\<And>q k. (q, k) \<in> set (enrolled (fst (register_face e p name v)))
               \<longleftrightarrow> (q, k) \<in> insert (p, v) (set (enrolled e))"
    using pairs_after_append [of _ _ p v "known_faces e"]
    by (auto simp: enrolled_def register_face_def Let_def)
  then show ?thesis by auto
next
  case False
  then have "\<And>q k. (q, k) \<in> set (enrolled (fst (register_face e p name v)))
               \<longleftrightarrow> (q, k) \<in> insert (p, v) (set (enrolled e))"
    using pairs_after_append [of _ _ p v "known_faces e @ [(p, [])]"]
    by (auto simp: enrolled_def register_face_def Let_def)
  then show ?thesis by auto
qed

lemma person_names_register:
  "person_names (fst (register_face e p name v)) p = Some name"
  by (simp add: register_face_def Let_def)

text \<open>
  C9, amended.  After \<^verbatim>\<open>register_face(p, name, v)\<close>, with \<open>p\<close> non-empty, on a registry whose
  encodings have the length of \<open>v\<close> and in which no other person has \<open>v\<close> enrolled, matching
  \<open>v\<close> has winning distance 0 and returns \<open>p\<close> with the registered name and confidence 1, the
  maximum of the transform, at the threshold 0.7 of the source.
\<close>

theorem register_then_match:
  assumes shapes: "\<forall>(q, k) \<in> set (enrolled e). length k = length v"
    and id: "p \<noteq> []"
    and others: "\<forall>(q, k) \<in> set (enrolled e). k = v \<longrightarrow> q = p"
  shows "snd (register_face e p name v) = True
         \<and> match_encoding now (fst (register_face e p name v)) v =
             Inr \<lparr> rec_person_id = Some p, rec_name = name,
                   rec_confidence = Fin 1, rec_timestamp = now \<rparr>
         \<and> Min ((\<lambda>(q, k). euclidean v k) ` set (enrolled (fst (register_face e p name v)))) = 0"
proof -
  let ?e = "fst (register_face e p name v)"
  have mem: "(p, v) \<in> set (enrolled ?e)" by (simp add: set_enrolled_register)
  then have ne: "enrolled ?e \<noteq> []" by auto
  have sh: "\<forall>(q, k) \<in> set (enrolled ?e). length k = length v"
    using shapes by (auto simp: set_enrolled_register)
  from compare_persons_nearest [OF sh ne]
  obtain q k where m: "(q, k) \<in> set (enrolled ?e)"
    and r: "compare_persons v (known_faces ?e) (None, PosInf) = Inr (Some q, Fin (euclidean v k))"
    and low: "\<forall>(q', j) \<in> set (enrolled ?e). euclidean v k \<le> euclidean v j"
    by blast
  from low mem have "euclidean v k \<le> euclidean v v" by auto
  then have z: "euclidean v k = 0"
    using euclidean_nonneg [of v k] by (simp add: euclidean_self)
  from sh m have "length k = length v" by auto
  with z have kv: "k = v" using euclidean_zero [of v k] by simp
  with m others have qp: "q = p" by (auto simp: set_enrolled_register)
  have res: "match_encoding now ?e v =
             Inr \<lparr> rec_person_id = Some p, rec_name = name,
                   rec_confidence = Fin 1, rec_timestamp = now \<rparr>"
    using r z qp id by (simp add: match_encoding_def py_max0_def person_names_register)
  have "Min ((\<lambda>(q, k). euclidean v k) ` set (enrolled ?e)) = 0"
  proof (rule Min_eqI)
    show "finite ((\<lambda>(q, k). euclidean v k) ` set (enrolled ?e))" by simp
    show "\<And>y. y \<in> (\<lambda>(q, k). euclidean v k) ` set (enrolled ?e) \<Longrightarrow> 0 \<le> y"
      by (auto simp: euclidean_nonneg)
    show "0 \<in> (\<lambda>(q, k). euclidean v k) ` set (enrolled ?e)"
      using mem euclidean_self [of v] by force
  qed
  with res show ?thesis by (simp add: register_face_def Let_def)
qed

lemma enrolled_two_residents:
  "enrolled two_residents = [(''resident_001'', [1, 0]), (''resident_002'', [0, 1])]"
  by (simp add: two_residents_def register_face_def FacialRecognitionEngine_init_def enrolled_def)

text \<open>
  C1, as stated, fails: the person registered under the empty string is at distance 0 from
  the query, below 0.7, and the result has no identity, because the test
  \<^verbatim>\<open>is_match and best_match\<close> takes the empty string for false.
\<close>

theorem match_blank_id_counterexample:
  "enrolled blank_id_engine = [([], [1, 0])]
   \<and> euclidean [1, 0] [1, 0] < 7 / 10
   \<and> match_encoding 0 blank_id_engine [1, 0] = Inr (unknown_face (Fin 1) 0)"
  by (simp add: blank_id_engine_def register_face_def FacialRecognitionEngine_init_def
        enrolled_def euclidean_def match_encoding_def np_subtract_def np_broadcast_def
        linalg_norm_def py_max0_def)

text \<open>
  C9, as stated, fails: \<^verbatim>\<open>resident_002\<close> is registered with the encoding that
  \<^verbatim>\<open>resident_001\<close> already has, and matching that encoding returns \<^verbatim>\<open>resident_001\<close>,
  the first of the two at distance 0.
\<close>

theorem register_same_face_counterexample:
  "match_encoding 0 same_face_twice [1, 0] =
     Inr \<lparr> rec_person_id = Some ''resident_001'', rec_name = ''John Doe'',
           rec_confidence = Fin 1, rec_timestamp = 0 \<rparr>"
  by (simp add: same_face_twice_def register_face_def FacialRecognitionEngine_init_def
        match_encoding_def np_subtract_def np_broadcast_def
        linalg_norm_def py_max0_def)

text \<open>The hypotheses of C1 hold for two residents, and the nearer one is matched.\<close>

theorem match_encoding_nearest_witness:
  "enrolled two_residents = [(''resident_001'', [1, 0]), (''resident_002'', [0, 1])]
   \<and> match_encoding 0 two_residents [1, 0] =
       Inr \<lparr> rec_person_id = Some ''resident_001'', rec_name = ''John Doe'',
             rec_confidence = Fin 1, rec_timestamp = 0 \<rparr>
   \<and> Min ((\<lambda>(p, k). euclidean [1, 0] k) ` set (enrolled two_residents)) = 0"
proof -
  have h1: "\<forall>(p, k) \<in> set (enrolled two_residents). length k = length [1, 0 :: real]"
    by (simp add: enrolled_two_residents)
  have h2: "enrolled two_residents \<noteq> []"
    by (simp add: enrolled_two_residents)
  have h3: "\<forall>(p, k) \<in> set (enrolled two_residents). p \<noteq> []"
    by (simp add: enrolled_two_residents)
  have ev: "match_encoding 0 two_residents [1, 0] =
       Inr \<lparr> rec_person_id = Some ''resident_001'', rec_name = ''John Doe'',
             rec_confidence = Fin 1, rec_timestamp = 0 \<rparr>"
    by (simp add: two_residents_def register_face_def FacialRecognitionEngine_init_def
        match_encoding_def np_subtract_def np_broadcast_def
        linalg_norm_def py_max0_def)
  from match_encoding_nearest [OF h1 h2 h3, of 0]
  obtain r d where "match_encoding 0 two_residents [1, 0] = Inr r"
    and "d = Min ((\<lambda>(p, k). euclidean [1, 0] k) ` set (enrolled two_residents))"
    and "rec_confidence r = Fin (max 0 (1 - d))"
    and "rec_person_id r \<noteq> None \<longleftrightarrow> d < 7 / 10"
    by blast
  with ev have "max 0 (1 - Min ((\<lambda>(p, k). euclidean [1, 0] k) ` set (enrolled two_residents))) = 1"
    by auto
  moreover have "0 \<le> Min ((\<lambda>(p, k). euclidean [1, 0] k) ` set (enrolled two_residents))"
    using h2 by (auto simp: euclidean_nonneg)
  ultimately have "Min ((\<lambda>(p, k). euclidean [1, 0] k) ` set (enrolled two_residents)) = 0"
    by (simp add: max_def split: if_splits)
  with ev enrolled_two_residents show ?thesis by blast
qed

text \<open>A caregiver registered after two residents is matched by the registered encoding.\<close>

theorem register_then_match_witness:
  "enrolled two_residents = [(''resident_001'', [1, 0]), (''resident_002'', [0, 1])]
   \<and> ''caregiver_001'' \<noteq> []
   \<and> match_encoding 5 (fst (register_face two_residents ''caregiver_001'' ''Alice Johnson'' [1, 1]))
         [1, 1] =
       Inr \<lparr> rec_person_id = Some ''caregiver_001'', rec_name = ''Alice Johnson'',
             rec_confidence = Fin 1, rec_timestamp = 5 \<rparr>"
proof -
  have h1: "\<forall>(q, k) \<in> set (enrolled two_residents). length k = length [1, 1 :: real]"
    by (simp add: enrolled_two_residents)
  have h2: "''caregiver_001'' \<noteq> []" by simp
  have h3: "\<forall>(q, k) \<in> set (enrolled two_residents). k = [1, 1] \<longrightarrow> q = ''caregiver_001''"
    by (simp add: enrolled_two_residents)
  from register_then_match [OF h1 h2 h3, of "''Alice Johnson''" 5] h2 enrolled_two_residents
  show ?thesis by blast
qed

lemma length_np_linspace: "length (np_linspace a b n) = n"
  by (simp add: np_linspace_def)

lemma np_histogram_length:
  "np_histogram a edges w = Inr h \<Longrightarrow> length h = length edges - 1"
  by (auto simp: np_histogram_def split: if_splits)

lemma length_cv2_calcHist_64: "length (cv2_calcHist_64 gray) = 64"
  by (simp add: cv2_calcHist_64_def)

lemma combined_histograms_shape:
  "combined_histograms gray sobelx sobely = Some c \<Longrightarrow>
     \<exists>hist_grad. c = hist_grad @ cv2_calcHist_64 gray \<and> length hist_grad = 8"
  by (auto simp: combined_histograms_def Let_def length_np_linspace
           dest!: np_histogram_length split: sum.splits)

lemma combined_histograms_length:
  "combined_histograms gray sobelx sobely = Some c \<Longrightarrow> length c = 72"
  using combined_histograms_shape [of gray sobelx sobely c]
  by (auto simp: length_cv2_calcHist_64)

lemma length_fit_128: "length (fit_128 c) = 128"
  by (simp add: fit_128_def)

lemma fit_128_pads: "length c = 72 \<Longrightarrow> fit_128 c = c @ replicate 56 0"
  by (simp add: fit_128_def)

lemma sum_power2_nonneg: "0 \<le> sum_list (map (\<lambda>x. x\<^sup>2) (v :: real list))"
  by (rule sum_list_nonneg) auto

lemma linalg_norm_nonneg: "0 \<le> linalg_norm v"
  by (simp add: linalg_norm_def sum_power2_nonneg)

lemma linalg_norm_zero_iff: "linalg_norm v = 0 \<longleftrightarrow> (\<forall>x \<in> set v. x = 0)"
proof -
  have "sum_list (map (\<lambda>x. x\<^sup>2) v) = 0 \<longleftrightarrow> (\<forall>y \<in> set (map (\<lambda>x. x\<^sup>2) v). y = 0)"
    by (rule sum_list_nonneg_eq_0_iff) auto
  then show ?thesis by (auto simp: linalg_norm_def)
qed

lemma sum_squares_scaled:
  "sum_list (map (\<lambda>x. (x / n)\<^sup>2) v) = sum_list (map (\<lambda>x. x\<^sup>2) v) / n\<^sup>2" for n :: real
  by (induction v) (simp_all add: power_divide add_divide_distrib)

lemma linalg_norm_normalized:
  assumes "linalg_norm v > 0"
  shows "linalg_norm (map (\<lambda>x. x / linalg_norm v) v) = 1"
proof -
  let ?s = "sum_list (map (\<lambda>x. x\<^sup>2) v)"
  have s: "0 \<le> ?s" by (rule sum_power2_nonneg)
  then have sq: "(linalg_norm v)\<^sup>2 = ?s" by (simp add: linalg_norm_def)
  from assms have "(linalg_norm v)\<^sup>2 > 0" by simp
  then have pos: "?s > 0" by (simp only: sq)
  have "?s / (linalg_norm v)\<^sup>2 = ?s / ?s" by (simp only: sq)
  also have "\<dots> = 1" using pos by simp
  finally have one: "?s / (linalg_norm v)\<^sup>2 = 1" .
  have "linalg_norm (map (\<lambda>x. x / linalg_norm v) v)
          = sqrt (sum_list (map (\<lambda>x. (x / linalg_norm v)\<^sup>2) v))"
    by (simp add: linalg_norm_def [of "map (\<lambda>x. x / linalg_norm v) v"] o_def)
  also have "\<dots> = sqrt (?s / (linalg_norm v)\<^sup>2)" by (simp only: sum_squares_scaled)
  also have "\<dots> = sqrt 1" by (simp only: one)
  finally show ?thesis by simp
qed

lemma calcHist_has_count:
  assumes "gray \<noteq> []"
  shows "\<exists>x \<in> set (cv2_calcHist_64 gray). x \<noteq> 0"
proof -
  from assms obtain v rest where g: "gray = v # rest" by (cases gray) auto
  let ?b = "unat v div 4"
  have "unat v < 256" using unsigned_less [of v] by simp
  then have b: "?b < 64" by simp
  have "filter (\<lambda>u. unat u div 4 = ?b) gray \<noteq> []" using g by simp
  then have "real (length (filter (\<lambda>u. unat u div 4 = ?b) gray)) \<noteq> 0" by simp
  moreover have "real (length (filter (\<lambda>u. unat u div 4 = ?b) gray)) \<in> set (cv2_calcHist_64 gray)"
    using b by (auto simp: cv2_calcHist_64_def)
  ultimately show ?thesis by blast
qed

lemma normalize_and_return_cases:
  "normalize_and_return x = Some y \<Longrightarrow>
     (linalg_norm x > 0 \<and> y = map (\<lambda>a. a / linalg_norm x) x) \<or> (linalg_norm x = 0 \<and> y = x)"
  using linalg_norm_nonneg [of x]
  by (auto simp: normalize_and_return_def guarded_divisor_def Let_def split: if_splits)

text \<open>The extraction, when it succeeds, went through every stage.\<close>

lemma extract_face_features_stages:
  assumes "extract_face_features cv face_roi = Some v"
  shows "\<exists>roi resized gray0 gray sobelx sobely c.
           face_roi = Some roi \<and> cv2_resize_64 cv roi = Some resized
           \<and> cv2_cvtColor_gray cv resized = Some gray0
           \<and> cv2_equalizeHist cv gray0 = Some gray
           \<and> cv2_Sobel cv gray 1 0 = Some sobelx \<and> cv2_Sobel cv gray 0 1 = Some sobely
           \<and> combined_histograms gray sobelx sobely = Some c
           \<and> normalize_and_return (fit_128 c) = Some v"
  using assms
  by (auto simp: extract_face_features_def split: option.splits if_splits)

text \<open>
  C3.  When the extraction succeeds on a crop that OpenCV resizes to 64 by 64, the returned
  vector has exactly 128 elements and L2 norm 1, hence within any \<open>eps \<ge> 0\<close> of 1.
\<close>

theorem extract_face_features_unit_norm:
  assumes "resizes_to_64x64 cv" and "extract_face_features cv face_roi = Some v"
  shows "length v = 128 \<and> linalg_norm v = 1 \<and> (0 \<le> eps \<longrightarrow> \<bar>linalg_norm v - 1\<bar> \<le> eps)"
proof -
  from extract_face_features_stages [OF assms(2)]
  obtain roi resized gray0 gray sobelx sobely c where
    st: "cv2_resize_64 cv roi = Some resized" "cv2_cvtColor_gray cv resized = Some gray0"
        "cv2_equalizeHist cv gray0 = Some gray"
    and c: "combined_histograms gray sobelx sobely = Some c"
    and n: "normalize_and_return (fit_128 c) = Some v"
    by blast
  from assms(1) st have "length gray = 4096" by (auto simp: resizes_to_64x64_def)
  then have "gray \<noteq> []" by auto
  then obtain x where x: "x \<in> set (cv2_calcHist_64 gray)" "x \<noteq> 0"
    using calcHist_has_count by blast
  from combined_histograms_shape [OF c] x have "x \<in> set c" by auto
  moreover have "fit_128 c = c @ replicate 56 0"
    using combined_histograms_length [OF c] by (rule fit_128_pads)
  ultimately have "x \<in> set (fit_128 c)" by simp
  with x have "linalg_norm (fit_128 c) \<noteq> 0" by (auto simp: linalg_norm_zero_iff)
  with normalize_and_return_cases [OF n]
  have pos: "linalg_norm (fit_128 c) > 0"
    and v: "v = map (\<lambda>a. a / linalg_norm (fit_128 c)) (fit_128 c)" by auto
  from v have "length v = 128" by (simp add: length_fit_128)
  moreover from v pos have "linalg_norm v = 1" by (simp add: linalg_norm_normalized)
  ultimately show ?thesis by simp
qed

lemma normalize_keeps_padding:
  assumes "normalize_and_return (c @ replicate 56 0) = Some v"
  shows "\<exists>f. length f = length c \<and> v = f @ replicate 56 0"
proof -
  from normalize_and_return_cases [OF assms]
  show ?thesis
  proof
    assume "linalg_norm (c @ replicate 56 0) > 0 \<and>
            v = map (\<lambda>a. a / linalg_norm (c @ replicate 56 0)) (c @ replicate 56 0)"
    then have "v = map (\<lambda>a. a / linalg_norm (c @ replicate 56 0)) c @ replicate 56 0"
      by simp
    then show ?thesis by (metis length_map)
  next
    assume "linalg_norm (c @ replicate 56 0) = 0 \<and> v = c @ replicate 56 0"
    then show ?thesis by blast
  qed
qed

lemma extract_face_features_padded:
  assumes "extract_face_features cv face_roi = Some v"
  shows "\<exists>f. length f = 72 \<and> v = f @ replicate 56 0"
proof -
  from extract_face_features_stages [OF assms]
  obtain gray sobelx sobely c where
    c: "combined_histograms gray sobelx sobely = Some c"
    and n: "normalize_and_return (fit_128 c) = Some v"
    by blast
  have l: "length c = 72" using c by (rule combined_histograms_length)
  with n have "normalize_and_return (c @ replicate 56 0) = Some v" by (simp add: fit_128_pads)
  from normalize_keeps_padding [OF this] l show ?thesis by auto
qed

lemma euclidean_padded:
  "length f = length g \<Longrightarrow>
     euclidean (f @ replicate n 0) (g @ replicate n 0) = euclidean f g"
  by (simp add: euclidean_def zip_replicate map_replicate_const sum_list_replicate)

lemma squares_against_zeros:
  "length t = n \<Longrightarrow> (\<Sum>(x, y) \<leftarrow> zip (replicate n 0) t. (x - y)\<^sup>2) = sum_list (map (\<lambda>y. y\<^sup>2) t)"
  for t :: "real list"
  by (simp add: zip_replicate1 o_def)

lemma distance_to_any_vector:
  assumes "length f = 72" and "length w = 128"
  shows "(linalg_norm (map2 (\<lambda>x y. x - y) (f @ replicate 56 0) w))\<^sup>2
           = (euclidean f (take 72 w))\<^sup>2 + (linalg_norm (drop 72 w))\<^sup>2"
proof -
  let ?g = "take 72 w" and ?t = "drop 72 w"
  have w: "w = ?g @ ?t" by simp
  have lg: "length ?g = 72" and lt: "length ?t = 56" using assms by simp_all
  have "zip (f @ replicate 56 0) w = zip (f @ replicate 56 0) (?g @ ?t)" by simp
  also have "\<dots> = zip f ?g @ zip (replicate 56 0) ?t"
    using assms lg by (simp del: append_take_drop_id)
  finally have z: "zip (f @ replicate 56 0) w = zip f ?g @ zip (replicate 56 0) ?t" .
  have "(linalg_norm (map2 (\<lambda>x y. x - y) (f @ replicate 56 0) w))\<^sup>2
          = (\<Sum>(x, y) \<leftarrow> zip (f @ replicate 56 0) w. (x - y)\<^sup>2)"
    using sum_squares_nonneg [of "f @ replicate 56 0" w]
    by (simp add: linalg_norm_def o_def split_def)
  also have "\<dots> = (\<Sum>(x, y) \<leftarrow> zip f ?g. (x - y)\<^sup>2)
                    + (\<Sum>(x, y) \<leftarrow> zip (replicate 56 0) ?t. (x - y)\<^sup>2)"
    by (simp only: z map_append sum_list_append)
  also have "(\<Sum>(x, y) \<leftarrow> zip (replicate 56 0) ?t. (x - y)\<^sup>2) = sum_list (map (\<lambda>y. y\<^sup>2) ?t)"
    using lt by (rule squares_against_zeros)
  also have "(\<Sum>(x, y) \<leftarrow> zip f ?g. (x - y)\<^sup>2) = (euclidean f ?g)\<^sup>2"
    using sum_squares_nonneg [of f ?g] by (simp add: euclidean_def)
  also have "sum_list (map (\<lambda>y. y\<^sup>2) ?t) = (linalg_norm ?t)\<^sup>2"
    using sum_power2_nonneg [of ?t] by (simp add: linalg_norm_def)
  finally show ?thesis .
qed

text \<open>
  C10, amended.  Whenever the extraction succeeds, the vector has 128 elements of which those
  at positions 72 to 127 are zero; the two histograms always give 72 features, so the
  truncation branch is never taken and 56 zeros are appended.  The distance that the matcher
  computes between two extracted vectors is the distance between their first 72 positions;
  against an enrolled vector of 128 elements that need not come from the extractor, the
  squared distance is that of the first 72 positions plus the squares of the enrolled
  vector's positions 72 to 127.
\<close>

theorem extract_face_features_zero_tail:
  "(extract_face_features cv face_roi = Some v \<longrightarrow>
      length v = 128 \<and> v = take 72 v @ replicate 56 0
      \<and> (\<forall>i. 72 \<le> i \<and> i < 128 \<longrightarrow> v ! i = 0))
   \<and> (combined_histograms gray sobelx sobely = Some c \<longrightarrow>
        length c = 72 \<and> \<not> length c > 128 \<and> fit_128 c = c @ replicate 56 0)
   \<and> (extract_face_features cv face_roi = Some v \<and> extract_face_features cv' face_roi' = Some w \<longrightarrow>
        np_subtract v w = Inr (map2 (\<lambda>x y. x - y) v w)
        \<and> linalg_norm (map2 (\<lambda>x y. x - y) v w) = euclidean (take 72 v) (take 72 w))
   \<and> (extract_face_features cv face_roi = Some v \<and> length u = 128 \<longrightarrow>
        np_subtract v u = Inr (map2 (\<lambda>x y. x - y) v u)
        \<and> (linalg_norm (map2 (\<lambda>x y. x - y) v u))\<^sup>2
            = (euclidean (take 72 v) (take 72 u))\<^sup>2 + (linalg_norm (drop 72 u))\<^sup>2)"
proof -
  have tail: "length v = 128 \<and> v = take 72 v @ replicate 56 0
      \<and> (\<forall>i. 72 \<le> i \<and> i < 128 \<longrightarrow> v ! i = 0)"
    if "extract_face_features cv face_roi = Some v" for v
  proof -
    from extract_face_features_padded [OF that]
    obtain f where f: "length f = 72" "v = f @ replicate 56 0" by blast
    then show ?thesis by (auto simp: nth_append)
  qed
  have pad: "length c = 72 \<and> \<not> length c > 128 \<and> fit_128 c = c @ replicate 56 0"
    if "combined_histograms gray sobelx sobely = Some c"
    using combined_histograms_length [OF that] by (simp add: fit_128_pads)
  have dist: "np_subtract v w = Inr (map2 (\<lambda>x y. x - y) v w)
        \<and> linalg_norm (map2 (\<lambda>x y. x - y) v w) = euclidean (take 72 v) (take 72 w)"
    if "extract_face_features cv face_roi = Some v \<and> extract_face_features cv' face_roi' = Some w"
  proof -
    from that extract_face_features_padded [of cv face_roi v]
    obtain f where f: "length f = 72" "v = f @ replicate 56 0" by blast
    from that extract_face_features_padded [of cv' face_roi' w]
    obtain g where g: "length g = 72" "w = g @ replicate 56 0" by blast
    have "euclidean v w = euclidean f g" using f g by (simp add: euclidean_padded)
    moreover have "linalg_norm (map2 (\<lambda>x y. x - y) v w) = euclidean v w"
      by (simp add: linalg_norm_def euclidean_def o_def split_def)
    moreover have "np_subtract v w = Inr (map2 (\<lambda>x y. x - y) v w)"
      using f g by (simp add: np_subtract_def np_broadcast_def)
    ultimately show ?thesis using f g by simp
  qed
  have any: "np_subtract v u = Inr (map2 (\<lambda>x y. x - y) v u)
        \<and> (linalg_norm (map2 (\<lambda>x y. x - y) v u))\<^sup>2
            = (euclidean (take 72 v) (take 72 u))\<^sup>2 + (linalg_norm (drop 72 u))\<^sup>2"
    if "extract_face_features cv face_roi = Some v \<and> length u = 128"
  proof -
    from that extract_face_features_padded [of cv face_roi v]
    obtain f where f: "length f = 72" "v = f @ replicate 56 0" by blast
    from that have u: "length u = 128" by simp
    have "np_subtract v u = Inr (map2 (\<lambda>x y. x - y) v u)"
      using f u by (simp add: np_subtract_def np_broadcast_def)
    moreover have "take 72 v = f" using f by simp
    ultimately show ?thesis
      using distance_to_any_vector [OF f(1) u] f(2) by simp
  qed
  from tail pad dist any show ?thesis by blast
qed

lemma combined_histograms_Some:
  "length sobelx = length sobely \<Longrightarrow> \<exists>c. combined_histograms gray sobelx sobely = Some c"
  by (simp add: combined_histograms_def np_broadcast_def np_histogram_def Let_def)

lemma normalize_and_return_Some: "\<exists>y. normalize_and_return x = Some y"
  by (simp add: normalize_and_return_def split: option.splits)

lemma extract_flat_backend: "\<exists>v. extract_face_features flat_backend (Some 100) = Some v"
proof -
  obtain c where c: "combined_histograms (replicate 4096 0) (replicate 4096 0) (replicate 4096 0) = Some c"
    using combined_histograms_Some [of "replicate 4096 0" "replicate 4096 0" "replicate 4096 0"]
    by auto
  obtain v where "normalize_and_return (fit_128 c) = Some v"
    using normalize_and_return_Some by blast
  with c show ?thesis
    by (simp add: extract_face_features_def flat_backend_def)
qed

lemma flat_backend_resizes: "resizes_to_64x64 flat_backend"
  by (simp add: resizes_to_64x64_def flat_backend_def)

text \<open>The extraction succeeds on the uniformly black crop, with a vector of norm 1.\<close>

theorem extract_face_features_unit_norm_witness:
  "resizes_to_64x64 flat_backend
   \<and> (\<exists>v. extract_face_features flat_backend (Some 100) = Some v
          \<and> length v = 128 \<and> linalg_norm v = 1 \<and> \<bar>linalg_norm v - 1\<bar> \<le> 1 / 1000000)"
proof -
  from extract_flat_backend obtain v where v: "extract_face_features flat_backend (Some 100) = Some v"
    by blast
  from extract_face_features_unit_norm [OF flat_backend_resizes v, of "1 / 1000000"] v
    flat_backend_resizes
  show ?thesis by auto
qed

lemma sum_list_zeros: "(\<forall>x \<in> set xs. x = 0) \<Longrightarrow> sum_list xs = (0::real)"
  by (induction xs) auto

lemma np_histogram_zero_weights:
  assumes "length a = n"
  shows "np_histogram a edges (replicate n 0) = Inr (replicate (length edges - 1) 0)"
proof -
  have "sum_list (map snd (filter (\<lambda>(x, wx). in_bin edges i x) (zip a (replicate n (0::real))))) = 0"
    for i
  proof (rule sum_list_zeros, rule ballI)
    fix x
    assume "x \<in> set (map snd (filter (\<lambda>(x, wx). in_bin edges i x) (zip a (replicate n (0::real)))))"
    then obtain y where "(y, x) \<in> set (zip a (replicate n 0))" by auto
    then have "x \<in> set (replicate n (0::real))" by (rule set_zip_rightD)
    then show "x = 0" by simp
  qed
  then show ?thesis
    using assms by (simp add: np_histogram_def map_replicate_const)
qed

lemma calcHist_black: "cv2_calcHist_64 (replicate 4096 0) = 4096 # replicate 63 0"
proof -
  have u: "[0..<64] = 0 # [Suc 0..<64]" by (rule upt_conv_Cons) simp
  have "map (\<lambda>b. real (length (filter (\<lambda>v. unat v div 4 = b) (replicate 4096 (0 :: 8 word)))))
          [Suc 0..<64] = map (\<lambda>b. 0) [Suc 0..<64]"
    by (rule map_cong) auto
  then show ?thesis
    by (simp add: cv2_calcHist_64_def u map_replicate_const)
qed

lemma combined_histograms_black:
  "combined_histograms (replicate 4096 0) (replicate 4096 0) (replicate 4096 0)
     = Some (replicate 8 0 @ 4096 # replicate 63 0)"
proof -
  have m: "np_broadcast (\<lambda>gx gy. sqrt (gx\<^sup>2 + gy\<^sup>2)) (replicate 4096 0) (replicate 4096 0)
             = Inr (replicate 4096 0)"
    by (simp add: np_broadcast_def)
  have d: "np_broadcast np_arctan2 (replicate 4096 0) (replicate 4096 0) = Inr (replicate 4096 0)"
    by (simp add: np_broadcast_def np_arctan2_def)
  have h: "np_histogram (replicate 4096 0) (np_linspace (- pi) pi 9) (replicate 4096 0)
             = Inr (replicate 8 0)"
    using np_histogram_zero_weights [of "replicate 4096 0" 4096 "np_linspace (- pi) pi 9"]
    by (simp add: np_linspace_def)
  show ?thesis
    by (simp add: combined_histograms_def m d h calcHist_black Let_def)
qed

lemma linalg_norm_black:
  "linalg_norm (replicate 8 0 @ 4096 # replicate 63 0 @ replicate 56 0) = 4096"
  unfolding linalg_norm_def
  by (rule real_sqrt_unique) (simp_all add: sum_list_replicate)

lemma extract_black_crop:
  "extract_face_features flat_backend (Some 100) = Some black_crop_features"
proof -
  have f: "fit_128 (replicate 8 0 @ 4096 # replicate 63 0)
             = replicate 8 0 @ 4096 # replicate 63 0 @ replicate 56 0"
    by (simp add: fit_128_def)
  have r: "replicate 119 (0::real) = replicate 63 0 @ replicate 56 0"
    by (simp add: replicate_add [symmetric])
  have "normalize_and_return (replicate 8 0 @ 4096 # replicate 63 0 @ replicate 56 0)
          = Some black_crop_features"
    by (simp add: normalize_and_return_def guarded_divisor_def linalg_norm_black
          black_crop_features_def r)
  then show ?thesis
    by (simp add: extract_face_features_def flat_backend_def combined_histograms_black f)
qed






lemma black_crop_features_split:
  "black_crop_features = (replicate 8 0 @ [1] @ replicate 63 0) @ replicate 56 0"
proof -
  have "replicate 119 (0::real) = replicate 63 0 @ replicate 56 0"
    by (simp add: replicate_add [symmetric])
  then show ?thesis by (simp add: black_crop_features_def)
qed

lemma take_72_features:
  "take 72 black_crop_features = replicate 8 0 @ [1] @ replicate 63 0"
  "take 72 features_with_tail = replicate 8 0 @ [1] @ replicate 63 0"
  "drop 72 features_with_tail = [1] @ replicate 55 0"
  by (simp_all add: black_crop_features_split features_with_tail_def)

lemma distance_black_to_tail:
  "linalg_norm (map2 (\<lambda>x y. x - y) black_crop_features features_with_tail) = 1"
proof -
  have "(linalg_norm (map2 (\<lambda>x y. x - y) ((replicate 8 0 @ [1] @ replicate 63 0) @ replicate 56 0)
           features_with_tail))\<^sup>2
          = (euclidean (replicate 8 0 @ [1] @ replicate 63 0) (take 72 features_with_tail))\<^sup>2
            + (linalg_norm (drop 72 features_with_tail))\<^sup>2"
    by (rule distance_to_any_vector) (simp_all add: features_with_tail_def)
  also have "\<dots> = 1"
    by (simp add: take_72_features euclidean_self linalg_norm_def sum_list_replicate)
  finally have "(linalg_norm (map2 (\<lambda>x y. x - y) black_crop_features features_with_tail))\<^sup>2 = 1"
    by (simp only: black_crop_features_split)
  then show ?thesis
    using linalg_norm_nonneg [of "map2 (\<lambda>x y. x - y) black_crop_features features_with_tail"]
    by (simp add: power2_eq_1_iff)
qed

lemma length_features: "length black_crop_features = 128" "length features_with_tail = 128"
  by (simp_all add: black_crop_features_def features_with_tail_def)

text \<open>
  C10, as stated, fails in its last part: \<^verbatim>\<open>register_face\<close> stores any vector.  Two
  enrolled vectors that agree on the first 72 positions are at different distances from the
  same extracted query, 0 and 1, because one of them has a one at position 72; the first is
  matched and the second is not.
\<close>

theorem enrolled_tail_counterexample:
  "extract_face_features flat_backend (Some 100) = Some black_crop_features
   \<and> take 72 features_with_tail = take 72 black_crop_features
   \<and> match_encoding 0 black_crop_engine black_crop_features =
       Inr \<lparr> rec_person_id = Some ''resident_001'', rec_name = ''John Doe'',
             rec_confidence = Fin 1, rec_timestamp = 0 \<rparr>
   \<and> match_encoding 0 tail_engine black_crop_features = Inr (unknown_face (Fin 0) 0)"
proof -
  have same: "linalg_norm (map2 (\<lambda>x y. x - y) black_crop_features black_crop_features) = 0"
    by (simp only: linalg_norm_map2 euclidean_self)
  have m1: "match_encoding 0 black_crop_engine black_crop_features =
       Inr \<lparr> rec_person_id = Some ''resident_001'', rec_name = ''John Doe'',
             rec_confidence = Fin 1, rec_timestamp = 0 \<rparr>"
    by (simp add: match_encoding_def black_crop_engine_def register_face_def
          FacialRecognitionEngine_init_def np_subtract_def np_broadcast_def same py_max0_def)
  have m2: "match_encoding 0 tail_engine black_crop_features = Inr (unknown_face (Fin 0) 0)"
    by (simp add: match_encoding_def tail_engine_def register_face_def
          FacialRecognitionEngine_init_def np_subtract_def np_broadcast_def length_features
          distance_black_to_tail py_max0_def)
  from extract_black_crop m1 m2 show ?thesis by (simp add: take_72_features)
qed

text \<open>The zero tail of the vector extracted from the uniformly black crop.\<close>

theorem extract_face_features_zero_tail_witness:
  "extract_face_features flat_backend (Some 100) = Some black_crop_features
   \<and> combined_histograms (replicate 4096 0) (replicate 4096 0) (replicate 4096 0)
       = Some (replicate 8 0 @ 4096 # replicate 63 0)
   \<and> length (replicate 8 (0::real) @ 4096 # replicate 63 0) = 72
   \<and> length black_crop_features = 128
   \<and> black_crop_features ! 72 = 0 \<and> black_crop_features ! 127 = 0
   \<and> linalg_norm (map2 (\<lambda>x y. x - y) black_crop_features black_crop_features)
       = euclidean (take 72 black_crop_features) (take 72 black_crop_features)
   \<and> length features_with_tail = 128
   \<and> (linalg_norm (map2 (\<lambda>x y. x - y) black_crop_features features_with_tail))\<^sup>2
       = (euclidean (take 72 black_crop_features) (take 72 features_with_tail))\<^sup>2
         + (linalg_norm (drop 72 features_with_tail))\<^sup>2"
proof -
  from extract_face_features_zero_tail
         [of flat_backend "Some 100" black_crop_features
             "replicate 4096 0" "replicate 4096 0" "replicate 4096 0"
             "replicate 8 0 @ 4096 # replicate 63 0"
             flat_backend "Some 100" black_crop_features features_with_tail]
       extract_black_crop combined_histograms_black length_features
  show ?thesis by auto
qed

text \<open>
  C2.  Against an empty registry, the comparison of any encoding, and
  \<^verbatim>\<open>recognize_face\<close> on any frame and location, return a null identity, the name
  "Unknown" and confidence 0.
\<close>

theorem recognize_face_empty_registry:
  "known_faces e = [] \<Longrightarrow>
     match_encoding now e test_encoding =
       Inr \<lparr> rec_person_id = None, rec_name = ''Unknown'', rec_confidence = Fin 0,
             rec_timestamp = now \<rparr>
     \<and> recognize_face cv now e frame face_location =
       Inr \<lparr> rec_person_id = None, rec_name = ''Unknown'', rec_confidence = Fin 0,
             rec_timestamp = now \<rparr>"
  by (simp add: recognize_face_def match_encoding_def py_max0_def unknown_face_def Let_def
           split: option.splits)

text \<open>The freshly initialised engine has an empty registry.\<close>

theorem recognize_face_empty_registry_witness:
  "known_faces (FacialRecognitionEngine_init (6 / 10)) = []
   \<and> match_encoding 0 (FacialRecognitionEngine_init (6 / 10)) [1, 0] =
       Inr \<lparr> rec_person_id = None, rec_name = ''Unknown'', rec_confidence = Fin 0,
             rec_timestamp = 0 \<rparr>
   \<and> recognize_face flat_backend 0 (FacialRecognitionEngine_init (6 / 10)) 307200 (10, 10, 10, 10) =
       Inr \<lparr> rec_person_id = None, rec_name = ''Unknown'', rec_confidence = Fin 0,
             rec_timestamp = 0 \<rparr>"
proof -
  have h: "known_faces (FacialRecognitionEngine_init (6 / 10)) = []"
    by (simp add: FacialRecognitionEngine_init_def)
  from recognize_face_empty_registry [OF h, of 0 "[1, 0]" flat_backend 307200 "(10, 10, 10, 10)"] h
  show ?thesis by simp
qed

end
